theory Spec2Isabelle
  imports Main "HOL-Library.Sublist" "HOL-Library.Word"
begin

section \<open>multicall.js: the aggregate pipeline of \<open>src/aggregate.js\<close>\<close>

subsection \<open>Values, errors and strings\<close>

text \<open>
  JavaScript strings are modelled as \<open>string\<close>, one \<open>char\<close> per UTF-16 code unit, for
  strings whose code units are below 256 (signatures, type tags and keys are ASCII in
  practice). Objects used as dictionaries are maps from property names to values; the
  names are ordinary ones, not those an object inherits from its prototype.

  \<open>jsval\<close> covers the data values the pipeline passes around: argument values supplied
  by the caller and values produced by the ABI codec. \<open>JNum\<close> is an integer-valued
  number (of magnitude below \<open>10^21\<close>, so that its text is plain decimal), \<open>JBig\<close> a
  big-number object, printed in decimal by its \<open>toString\<close>.
\<close>

datatype jsval =
    JUndefined
  | JNull
  | JBool bool
  | JNum int
  | JBig int
  | JStr string
  | JArr "jsval list"

text \<open>
  Every \<open>throw\<close> is a value: \<open>TypeError\<close> is the engine's own error for a property
  read or a call on \<open>null\<close>/\<open>undefined\<close> and for destructuring \<open>undefined\<close>;
  \<open>InvariantViolation\<close> is what \<open>invariant(false, message)\<close> throws; \<open>Thrown\<close> is an
  exception raised inside an external collaborator or a caller-supplied transform,
  which the pipeline lets through.
\<close>

datatype error =
    TypeError
  | InvariantViolation string
  | Thrown string

type_synonym 'a result = "error + 'a"

fun digit_char :: "nat \<Rightarrow> char" where
  "digit_char n = char_of (48 + n)"

fun show_nat :: "nat \<Rightarrow> string" where
  "show_nat n = (if n < 10 then [digit_char n] else show_nat (n div 10) @ [digit_char (n mod 10)])"

declare show_nat.simps [simp del]

definition show_int :: "int \<Rightarrow> string" where
  "show_int i = (if i < 0 then CHR ''-'' # show_nat (nat (- i)) else show_nat (nat i))"

fun join_comma :: "string list \<Rightarrow> string" where
  "join_comma [] = []"
| "join_comma [s] = s"
| "join_comma (s # t # ss) = s @ '','' @ join_comma (t # ss)"

text \<open>
  \<open>to_text v\<close> is the text of \<open>v\<close> inside \<open>Array.prototype.join\<close>, which prints \<open>null\<close>
  and \<open>undefined\<close> elements as the empty string; \<open>js_toString v\<close> is the method call
  \<open>v.toString()\<close>, a TypeError on \<open>null\<close> and \<open>undefined\<close>.
\<close>

fun to_text :: "jsval \<Rightarrow> string" where
  "to_text JUndefined = []"
| "to_text JNull = []"
| "to_text (JBool b) = (if b then ''true'' else ''false'')"
| "to_text (JNum n) = show_int n"
| "to_text (JBig n) = show_int n"
| "to_text (JStr s) = s"
| "to_text (JArr vs) = join_comma (map to_text vs)"

fun js_toString :: "jsval \<Rightarrow> string result" where
  "js_toString JUndefined = Inl TypeError"
| "js_toString JNull = Inl TypeError"
| "js_toString v = Inr (to_text v)"

text \<open>\<open>s.split(',')\<close>: the pieces between commas; the empty string has one empty piece.\<close>

fun split_comma :: "string \<Rightarrow> string list" where
  "split_comma [] = [[]]"
| "split_comma (c # cs) =
     (if c = CHR '','' then [] # split_comma cs
      else (case split_comma cs of
              [] \<Rightarrow> [[c]]
            | w # ws \<Rightarrow> (c # w) # ws))"

text \<open>\<open>s.slice(1, -1)\<close>: without the first and the last code unit.\<close>

definition slice_1_m1 :: "string \<Rightarrow> string" where
  "slice_1_m1 s = butlast (tl s)"

subsection \<open>The two regular expressions\<close>

text \<open>
  \<open>FIRST_CLOSING_PARENTHESES = /^[^)]*\)/\<close>: from the start of the string up to and
  including the first closing parenthesis. \<open>s.match(...)\<close> is \<open>null\<close> (here \<open>None\<close>) when
  the string has no closing parenthesis, and otherwise an array whose element 0 is the
  matched text.
\<close>

definition FIRST_CLOSING_PARENTHESES :: "string \<Rightarrow> string option" where
  "FIRST_CLOSING_PARENTHESES s =
     (if CHR '')'' \<in> set s then Some (takeWhile (\<lambda>c. c \<noteq> CHR '')'') s @ '')'') else None)"

text \<open>
  \<open>INSIDE_EVERY_PARENTHESES = /\(.*?\)/g\<close>. The dot matches every code unit but a line
  terminator (line feed and carriage return; the two others, U+2028 and U+2029, lie
  outside the code units modelled). \<open>lazy_group cs\<close> matches \<open>.*?\)\<close> at the start of
  \<open>cs\<close>: the text up to the first closing parenthesis, if no line terminator comes
  before it, and the rest after that parenthesis.
\<close>

definition line_terminator :: "char \<Rightarrow> bool" where
  "line_terminator c \<longleftrightarrow> c = CHR 0x0A \<or> c = CHR 0x0D"

fun lazy_group :: "string \<Rightarrow> (string \<times> string) option" where
  "lazy_group [] = None"
| "lazy_group (c # cs) =
     (if c = CHR '')'' then Some ([], cs)
      else if line_terminator c then None
      else (case lazy_group cs of
              None \<Rightarrow> None
            | Some (body, rest) \<Rightarrow> Some (c # body, rest)))"

lemma lazy_group_shorter: "lazy_group cs = Some (body, rest) \<Longrightarrow> length rest < length cs"
  by (induction cs arbitrary: body) (auto split: if_splits option.splits)

text \<open>
  The global search: at an opening parenthesis that starts a match the match is taken
  and the search goes on behind it; everywhere else it moves one code unit forward.
\<close>

function scan_groups :: "string \<Rightarrow> string list" where
  "scan_groups [] = []"
| "scan_groups (c # cs) =
     (if c = CHR ''(''
      then (case lazy_group cs of
              None \<Rightarrow> scan_groups cs
            | Some (body, rest) \<Rightarrow> (CHR ''('' # body @ '')'') # scan_groups rest)
      else scan_groups cs)"
  by pat_completeness auto
termination
  by (relation "measure length") (auto dest: lazy_group_shorter)

text \<open>With the \<open>g\<close> flag, \<open>s.match(re)\<close> is the array of all matches, or \<open>null\<close> when there is none.\<close>

definition INSIDE_EVERY_PARENTHESES :: "string \<Rightarrow> string list option" where
  "INSIDE_EVERY_PARENTHESES s = (case scan_groups s of [] \<Rightarrow> None | ms \<Rightarrow> Some ms)"

subsection \<open>The data model\<close>

text \<open>
  The configuration: only \<open>multicallAddress\<close> is read by the pipeline itself; the
  network parameters are the business of \<open>ethCall\<close>.
\<close>

record config =
  multicallAddress :: string

text \<open>
  A call as the caller writes it. \<open>call\<close> is the array \<open>[method, ...argValues]\<close>,
  \<open>target\<close> may be missing (\<open>None\<close>), and signature mode adds \<open>returns\<close>, one
  \<open>[key, transform]\<close> entry per return field with the transform optional. A transform is
  the caller's function and may throw.
\<close>

type_synonym transform = "jsval \<Rightarrow> jsval result"

type_synonym return_meta = "string \<times> transform option"

record call_request =
  call :: "string \<times> jsval list"
  target :: "string option"

record sig_call = call_request +
  returns :: "return_meta list"

text \<open>
  The normalised call: what the callback of \<open>calls.map\<close> returns. \<open>d_method\<close>,
  \<open>d_target\<close> and \<open>d_returns\<close> are its \<open>method\<close>, \<open>target\<close> and \<open>returns\<close> properties;
  \<open>args\<close> pairs each argument value with its type.
\<close>

record call_data =
  d_method :: string
  args :: "(jsval \<times> string) list"
  d_target :: string

record descriptor = call_data +
  returnTypes :: "string list"
  d_returns :: "return_meta list"

text \<open>A caller passes one call or an array of calls: \<open>Array.isArray(calls) ? calls : [calls]\<close>.\<close>

datatype 'a one_or_many = One 'a | Many "'a list"

fun as_array :: "'a one_or_many \<Rightarrow> 'a list" where
  "as_array (One c) = [c]"
| "as_array (Many cs) = cs"

text \<open>The type argument of \<open>encodeParameters\<close>: a type name, or a parameter object
  \<open>{components, name, type}\<close>.\<close>

datatype paramtype =
    PType string
  | PObject "paramtype list" "string option" string

text \<open>
  What \<open>JSON.stringify\<close> is given: data, functions (which it prints as \<open>null\<close> inside
  an array and leaves out of an object), arrays and objects with their properties in
  insertion order.
\<close>

datatype jstree =
    Data jsval
  | Function
  | Array "jstree list"
  | Object "(string \<times> jstree) list"

text \<open>
  The collaborators the module imports, as parameters: \<open>strip0x\<close>, \<open>ethCall\<close>,
  \<open>encodeParameters\<close> and \<open>decodeParameters\<close> of \<open>helpers.js\<close>, \<open>keccak256\<close> and
  \<open>toUtf8Bytes\<close> of ethers, and the built-in \<open>JSON.stringify\<close>. The codec and the remote
  call may throw. Hashes, encodings and responses are hexadecimal strings; the bytes
  \<open>toUtf8Bytes\<close> returns are a string of byte-sized characters.
\<close>

record env =
  keccak256 :: "string \<Rightarrow> string"
  toUtf8Bytes :: "string \<Rightarrow> string"
  strip0x :: "string \<Rightarrow> string"
  encodeParameters :: "paramtype list \<Rightarrow> jsval list \<Rightarrow> string result"
  decodeParameters :: "string list \<Rightarrow> jsval \<Rightarrow> jsval list result"
  ethCall :: "string \<Rightarrow> config \<Rightarrow> string result"
  JSON_stringify :: "jstree \<Rightarrow> string"

text \<open>
  What outlives one invocation, and what an invocation does to the outside: the cache
  of the memoised envelope builder, the number of times the body of
  \<open>_makeMulticallData\<close> has run, and the payloads handed to \<open>ethCall\<close>, oldest first.
\<close>

record world =
  memo_cache :: "string \<rightharpoonup> string"
  encode_runs :: nat
  eth_calls :: "string list"

text \<open>\<open>xs.map(f)\<close> with a callback that may throw: the first exception ends the map.\<close>

fun map_result :: "('a \<Rightarrow> 'b result) \<Rightarrow> 'a list \<Rightarrow> 'b list result" where
  "map_result f [] = Inr []"
| "map_result f (x # xs) =
     (case f x of
        Inl e \<Rightarrow> Inl e
      | Inr y \<Rightarrow> (case map_result f xs of Inl e \<Rightarrow> Inl e | Inr ys \<Rightarrow> Inr (y # ys)))"

subsection \<open>The envelope builder\<close>

text \<open>
  The call data of one descriptor (the second component of the pair built in
  \<open>_makeMulticallData\<close>): the first ten code units of the hash text, \<open>0x\<close> and eight
  hexadecimal digits, followed by the encoded arguments without their \<open>0x\<close> when the
  descriptor has arguments. \<open>args\<close> is an array in every descriptor, so \<open>args &&\<close> holds.
\<close>

definition callData :: "env \<Rightarrow> 'a call_data_scheme \<Rightarrow> string result" where
  "callData E d =
     (let selector = take 10 (keccak256 E (toUtf8Bytes E (d_method d)))
      in if length (args d) > 0
         then (case encodeParameters E (map (\<lambda>a. PType (snd a)) (args d)) (map (\<lambda>a. fst a) (args d)) of
                 Inl e \<Rightarrow> Inl e
               | Inr encoded \<Rightarrow> Inr (selector @ strip0x E encoded))
         else Inr (selector @ []))"

definition call_tuple :: "env \<Rightarrow> 'a call_data_scheme \<Rightarrow> jsval result" where
  "call_tuple E d =
     (case callData E d of
        Inl e \<Rightarrow> Inl e
      | Inr cd \<Rightarrow> Inr (JArr [JStr (d_target d), JStr cd]))"

text \<open>The parameter object of the outer encoding, and \<open>_makeMulticallData\<close> itself
  (an identifier cannot begin with an underscore, hence \<open>raw_makeMulticallData\<close>).\<close>

definition envelope_type :: paramtype where
  "envelope_type =
     PObject [PObject [] None ''address'', PObject [] None ''bytes''] (Some ''data'') ''tuple[]''"

definition raw_makeMulticallData :: "env \<Rightarrow> 'a call_data_scheme list \<Rightarrow> string result" where
  "raw_makeMulticallData E calls =
     (case map_result (call_tuple E) calls of
        Inl e \<Rightarrow> Inl e
      | Inr tuples \<Rightarrow> encodeParameters E [envelope_type] [JArr tuples])"

text \<open>
  \<open>makeMulticallData = memoize(_makeMulticallData, (...args) => JSON.stringify(args))\<close>.
  The key is the text of the argument array \<open>[calls, false]\<close>; \<open>view\<close> says how a
  descriptor looks to \<open>JSON.stringify\<close>. lodash's \<open>memoize\<close> returns the cached value when
  the cache has the key; otherwise it runs the function and stores the result, and
  stores nothing when the function throws.
\<close>

definition resolver :: "env \<Rightarrow> ('d \<Rightarrow> jstree) \<Rightarrow> 'd list \<Rightarrow> bool \<Rightarrow> string" where
  "resolver E view calls flag = JSON_stringify E (Array [Array (map view calls), Data (JBool flag)])"

definition makeMulticallData ::
  "env \<Rightarrow> ('a call_data_scheme \<Rightarrow> jstree) \<Rightarrow> world \<Rightarrow> 'a call_data_scheme list \<Rightarrow> bool
     \<Rightarrow> string result \<times> world" where
  "makeMulticallData E view w calls flag =
     (let key = resolver E view calls flag
      in case memo_cache w key of
           Some blob \<Rightarrow> (Inr blob, w)
         | None \<Rightarrow>
             (let w' = w\<lparr>encode_runs := Suc (encode_runs w)\<rparr>
              in case raw_makeMulticallData E calls of
                   Inl e \<Rightarrow> (Inl e, w')
                 | Inr blob \<Rightarrow> (Inr blob, w'\<lparr>memo_cache := (memo_cache w')(key \<mapsto> blob)\<rparr>)))"

subsection \<open>Signature mode: the call normaliser\<close>

text \<open>
  \<open>invariant(condition, format)\<close> of the package \<open>invariant\<close>: when the condition is
  false it throws an error named \<open>Invariant Violation\<close> whose message is
  \<open>format.replace(/%s/g, () => args[argIndex++])\<close>. The module passes no format
  arguments, so every argument is \<open>undefined\<close> and each \<open>%s\<close> of the text it hands over,
  read from left to right, becomes the text \<open>undefined\<close>.
\<close>

fun format_message :: "string \<Rightarrow> string" where
  "format_message (a # b # cs) =
     (if a = CHR ''%'' \<and> b = CHR ''s''
      then ''undefined'' @ format_message cs
      else a # format_message (b # cs))"
| "format_message [a] = [a]"
| "format_message [] = []"

definition invariant :: "bool \<Rightarrow> string \<Rightarrow> unit result" where
  "invariant condition format =
     (if condition then Inr () else Inl (InvariantViolation (format_message format)))"

text \<open>The template literal of the arity check, with its line breaks and indentation.\<close>

definition arity_message :: "env \<Rightarrow> string list \<Rightarrow> jsval list \<Rightarrow> string" where
  "arity_message E argTypes argValues =
     ''Every method argument must have exactly one type.'' @ [CHR 0x0A] @
     replicate 10 (CHR '' '') @ ''Comparing argument types '' @
     JSON_stringify E (Data (JArr (map JStr argTypes))) @ [CHR 0x0A] @
     replicate 10 (CHR '' '') @ ''to argument values '' @
     JSON_stringify E (Data (JArr argValues)) @ ''.'' @ [CHR 0x0A] @
     replicate 8 (CHR '' '')"

text \<open>\<open>if (!target) target = config.multicallAddress\<close>: a missing and an empty target are falsy.\<close>

definition default_target :: "config \<Rightarrow> string option \<Rightarrow> string" where
  "default_target config t =
     (case t of
        None \<Rightarrow> multicallAddress config
      | Some a \<Rightarrow> if a = [] then multicallAddress config else a)"

text \<open>
  \<open>const [argTypesString, returnTypesString] = method.match(INSIDE_EVERY_PARENTHESES)
  .map((match) => match.slice(1, -1))\<close>: \<open>match\<close> on a signature without a parenthesised
  group is \<open>null\<close>, and \<open>null.map\<close> is a TypeError; the second group is \<open>undefined\<close>
  (\<open>None\<close>) when the signature has only one.
\<close>

definition signature_groups :: "string \<Rightarrow> (string \<times> string option) result" where
  "signature_groups signature =
     (case INSIDE_EVERY_PARENTHESES signature of
        None \<Rightarrow> Inl TypeError
      | Some matches \<Rightarrow>
          (case map slice_1_m1 matches of
             [] \<Rightarrow> Inl TypeError
           | argTypesString # others \<Rightarrow>
               Inr (argTypesString, (case others of [] \<Rightarrow> None | r # _ \<Rightarrow> Some r))))"

text \<open>\<open>argTypesString.split(',').filter((e) => !!e)\<close>.\<close>

definition resolve_argTypes :: "string \<Rightarrow> string list" where
  "resolve_argTypes argTypesString = filter (\<lambda>e. e \<noteq> []) (split_comma argTypesString)"

text \<open>
  The callback of \<open>calls.map\<close> in \<open>aggregate\<close>. When the arity check has passed, the
  two lists have the same length and \<open>argValues.map((v, idx) => [v, argTypes[idx]])\<close> is
  their \<open>zip\<close>.
\<close>

definition normalizeCall :: "env \<Rightarrow> config \<Rightarrow> sig_call \<Rightarrow> descriptor result" where
  "normalizeCall E config c =
     (let target = default_target config (target c);
          method = fst (call c);
          argValues = snd (call c)
      in case signature_groups method of
           Inl e \<Rightarrow> Inl e
         | Inr (argTypesString, returnTypesString) \<Rightarrow>
             (let argTypes = resolve_argTypes argTypesString
              in case invariant (length argTypes = length argValues)
                        (arity_message E argTypes argValues) of
                   Inl e \<Rightarrow> Inl e
                 | Inr _ \<Rightarrow>
                     (let args = zip argValues argTypes;
                          returnTypes =
                            (case returnTypesString of
                               None \<Rightarrow> []
                             | Some r \<Rightarrow> if r \<noteq> [] then split_comma r else [])
                      in case FIRST_CLOSING_PARENTHESES method of
                           None \<Rightarrow> Inl TypeError
                         | Some m \<Rightarrow>
                             Inr \<lparr>d_method = m, args = args, d_target = target,
                                  returnTypes = returnTypes, d_returns = returns c\<rparr>)))"

text \<open>How a signature-mode descriptor looks to \<open>JSON.stringify\<close>: its properties in
  the order of the object literal; a return entry is \<open>[key]\<close> or \<open>[key, transform]\<close>.\<close>

definition descriptor_view :: "descriptor \<Rightarrow> jstree" where
  "descriptor_view d =
     Object
       [(''method'', Data (JStr (d_method d))),
        (''args'', Data (JArr (map (\<lambda>a. JArr [fst a, JStr (snd a)]) (args d)))),
        (''returnTypes'', Data (JArr (map JStr (returnTypes d)))),
        (''target'', Data (JStr (d_target d))),
        (''returns'',
           Array (map (\<lambda>m. Array (Data (JStr (fst m)) #
                                   (case snd m of None \<Rightarrow> [] | Some _ \<Rightarrow> [Function])))
                      (d_returns d)))]"

subsection \<open>Signature mode: the key-to-argument map\<close>

text \<open>The callback of the \<open>reduce\<close> that builds \<open>keyToArgMap\<close>, and the \<open>reduce\<close> itself.\<close>

definition keyToArgMap_step ::
  "(string \<rightharpoonup> jsval list) \<Rightarrow> sig_call \<Rightarrow> (string \<rightharpoonup> jsval list)" where
  "keyToArgMap_step acc c =
     (let args = snd (call c)
      in if length args > 0
         then foldl (\<lambda>acc returnMeta. acc(fst returnMeta \<mapsto> args)) acc (returns c)
         else acc)"

definition keyToArgMap_of :: "sig_call list \<Rightarrow> (string \<rightharpoonup> jsval list)" where
  "keyToArgMap_of calls = foldl keyToArgMap_step Map.empty calls"

subsection \<open>Signature mode: decoding and mapping the results\<close>

text \<open>
  The callback of \<open>resultsDecoded.map\<close>: a field whose declared type is \<open>bool\<close> becomes
  the comparison of its text with \<open>true\<close>. \<open>types[idx]\<close> beyond the end of \<open>types\<close> is
  \<open>undefined\<close>, which is not \<open>'bool'\<close>.
\<close>

definition coerceField :: "string list \<Rightarrow> nat \<Rightarrow> jsval \<Rightarrow> jsval result" where
  "coerceField types idx r =
     (if idx < length types \<and> types ! idx = ''bool''
      then (case js_toString r of
              Inl e \<Rightarrow> Inl e
            | Inr text \<Rightarrow> Inr (JBool (text = ''true'')))
      else Inr r)"

definition coerceFields :: "string list \<Rightarrow> jsval list \<Rightarrow> jsval list result" where
  "coerceFields types resultsDecoded =
     map_result (\<lambda>p. coerceField types (fst p) (snd p)) (enumerate 0 resultsDecoded)"

text \<open>The callback of \<open>r.forEach\<close>, for the result at position \<open>idx\<close>: \<open>calls[idx]\<close> beyond
  the end of \<open>calls\<close> is \<open>undefined\<close>, and reading its \<open>returnTypes\<close> is a TypeError.\<close>

definition decodeCallResult :: "env \<Rightarrow> descriptor list \<Rightarrow> nat \<Rightarrow> jsval \<Rightarrow> jsval list result" where
  "decodeCallResult E calls idx results =
     (if idx < length calls
      then (let types = returnTypes (calls ! idx)
            in case decodeParameters E types results of
                 Inl e \<Rightarrow> Inl e
               | Inr resultsDecoded \<Rightarrow> coerceFields types resultsDecoded)
      else Inl TypeError)"

fun forEachResult ::
  "env \<Rightarrow> descriptor list \<Rightarrow> nat \<Rightarrow> jsval list \<Rightarrow> jsval list \<Rightarrow> jsval list result" where
  "forEachResult E calls idx [] acc = Inr acc"
| "forEachResult E calls idx (results # rest) acc =
     (case decodeCallResult E calls idx results of
        Inl e \<Rightarrow> Inl e
      | Inr vals \<Rightarrow> forEachResult E calls (Suc idx) rest (acc @ vals))"

text \<open>The \<open>reduce\<close> over what is left of \<open>outerResultsDecoded\<close> after \<open>shift()\<close>: each
  element must be an array, anything else has no \<open>forEach\<close>.\<close>

fun parseVals :: "env \<Rightarrow> descriptor list \<Rightarrow> jsval list \<Rightarrow> jsval list \<Rightarrow> jsval list result" where
  "parseVals E calls [] acc = Inr acc"
| "parseVals E calls (JArr items # rs) acc =
     (case forEachResult E calls 0 items acc of
        Inl e \<Rightarrow> Inl e
      | Inr acc' \<Rightarrow> parseVals E calls rs acc')"
| "parseVals E calls (r # rs) acc = Inl TypeError"

record retObj =
  blockNumber :: jsval
  original :: "string \<rightharpoonup> jsval"
  transformed :: "string \<rightharpoonup> jsval"

text \<open>\<open>transform !== undefined ? transform(v) : v\<close>.\<close>

definition apply_transform :: "transform option \<Rightarrow> jsval \<Rightarrow> jsval result" where
  "apply_transform t v = (case t of None \<Rightarrow> Inr v | Some f \<Rightarrow> f v)"

text \<open>
  The loop \<open>for (let i = 0; i < parsedVals.length; i++)\<close> over the values and the return
  metadata in lockstep. When the values outnumber the metadata, \<open>returnDataMeta[i]\<close> is
  \<open>undefined\<close> and destructuring it is a TypeError.
\<close>

fun mapResults :: "return_meta list \<Rightarrow> jsval list \<Rightarrow> retObj \<Rightarrow> retObj result" where
  "mapResults metas [] ret = Inr ret"
| "mapResults [] (v # vs) ret = Inl TypeError"
| "mapResults (m # metas) (v # vs) ret =
     (let name = fst m;
          ret1 = ret\<lparr>original := (original ret)(name \<mapsto> v)\<rparr>
      in case apply_transform (snd m) v of
           Inl e \<Rightarrow> Inl e
         | Inr t \<Rightarrow> mapResults metas vs (ret1\<lparr>transformed := (transformed ret1)(name \<mapsto> t)\<rparr>))"

text \<open>\<open>xs.shift()\<close>: the first element (\<open>undefined\<close> for an empty array) and the rest.\<close>

fun shift :: "jsval list \<Rightarrow> jsval \<times> jsval list" where
  "shift [] = (JUndefined, [])"
| "shift (x # xs) = (x, xs)"

subsection \<open>Signature mode: aggregate\<close>

record aggregate_output =
  results :: retObj
  keyToArgMap :: "string \<rightharpoonup> jsval list"

text \<open>
  The part of \<open>aggregate\<close> after the remote call has answered, in its three steps:
  the count check, the decoding (\<open>decodeOuter\<close>: the block number and \<open>parsedVals\<close>)
  and the mapping loop.
\<close>

definition decodeOuter :: "env \<Rightarrow> descriptor list \<Rightarrow> string \<Rightarrow> (jsval \<times> jsval list) result" where
  "decodeOuter E calls outerResults =
     (case decodeParameters E [''uint256'', ''bytes[]''] (JStr outerResults) of
        Inl e \<Rightarrow> Inl e
      | Inr outerResultsDecoded \<Rightarrow>
          (let blockNumber = fst (shift outerResultsDecoded);
               remaining = snd (shift outerResultsDecoded)
           in case parseVals E calls remaining [] of
                Inl e \<Rightarrow> Inl e
              | Inr parsedVals \<Rightarrow> Inr (blockNumber, parsedVals)))"

definition decodeAndMap :: "env \<Rightarrow> descriptor list \<Rightarrow> string \<Rightarrow> retObj result" where
  "decodeAndMap E calls outerResults =
     (let returnTypeArray = concat (map returnTypes calls);
          returnDataMeta = concat (map d_returns calls)
      in case invariant (length returnTypeArray = length returnDataMeta)
                ''Missing data needed to parse results'' of
           Inl e \<Rightarrow> Inl e
         | Inr _ \<Rightarrow>
             (case decodeOuter E calls outerResults of
                Inl e \<Rightarrow> Inl e
              | Inr (number, parsedVals) \<Rightarrow>
                  mapResults returnDataMeta parsedVals
                    \<lparr>blockNumber = number, original = Map.empty,
                     transformed = Map.empty\<rparr>))"

definition aggregate ::
  "env \<Rightarrow> config \<Rightarrow> world \<Rightarrow> sig_call one_or_many \<Rightarrow> aggregate_output result \<times> world" where
  "aggregate E config w input =
     (let calls = as_array input;
          keyToArgMap = keyToArgMap_of calls
      in case map_result (normalizeCall E config) calls of
           Inl e \<Rightarrow> (Inl e, w)
         | Inr calls' \<Rightarrow>
             (case makeMulticallData E descriptor_view w calls' False of
                (Inl e, w1) \<Rightarrow> (Inl e, w1)
              | (Inr callDataBytes, w1) \<Rightarrow>
                  (let w2 = w1\<lparr>eth_calls := eth_calls w1 @ [callDataBytes]\<rparr>
                   in case ethCall E callDataBytes config of
                        Inl e \<Rightarrow> (Inl e, w2)
                      | Inr outerResults \<Rightarrow>
                          (case decodeAndMap E calls' outerResults of
                             Inl e \<Rightarrow> (Inl e, w2)
                           | Inr retObj \<Rightarrow>
                               (Inr \<lparr>results = retObj, keyToArgMap = keyToArgMap\<rparr>, w2)))))"

subsection \<open>ABI mode: aggregateDecodedFromABI\<close>

text \<open>
  A call of ABI mode carries the ABI of its contract. The interface library (ethers)
  is a parameter: \<open>Interface\<close> is the constructor \<open>new Interface(abi)\<close>,
  \<open>getFunction_inputs iface m\<close> is \<open>iface.getFunction(m).inputs.map((i) => i.type)\<close>,
  \<open>decodeFunctionResult iface m data\<close> is the method of that name, and \<open>MULTICALL_ABI\<close>
  is the interface the module builds when it is loaded from the fixed ABI of the
  multicall contract. Each of the three operations may throw.
\<close>

record 'abi abi_call = call_request +
  abi :: 'abi

record ('abi, 'iface) ethers =
  Interface :: "'abi \<Rightarrow> 'iface result"
  getFunction_inputs :: "'iface \<Rightarrow> string \<Rightarrow> string list result"
  decodeFunctionResult :: "'iface \<Rightarrow> string \<Rightarrow> jsval \<Rightarrow> jsval list result"
  MULTICALL_ABI :: 'iface

text \<open>
  \<open>Object.fromEntries\<close> turns each key into a property name, \<open>undefined\<close> into the
  name \<open>undefined\<close>, and a later entry replaces an earlier one of the same name.
  Reading \<open>obj[target]\<close> converts the key in the same way. Property names are taken
  to be names the object does not inherit.
\<close>

definition key_of :: "string option \<Rightarrow> string" where
  "key_of t = (case t of None \<Rightarrow> ''undefined'' | Some a \<Rightarrow> a)"

definition fromEntries :: "(string option \<times> 'v) list \<Rightarrow> (string \<rightharpoonup> 'v)" where
  "fromEntries entries = foldl (\<lambda>obj e. obj(key_of (fst e) \<mapsto> snd e)) Map.empty entries"

text \<open>The callback \<open>({ abi, target }) => [target, new Interface(abi)]\<close>.\<close>

definition interface_entry ::
  "('abi, 'iface) ethers \<Rightarrow> 'abi abi_call \<Rightarrow> (string option \<times> 'iface) result" where
  "interface_entry N c =
     (case Interface N (abi c) of
        Inl e \<Rightarrow> Inl e
      | Inr iface \<Rightarrow> Inr (target c, iface))"

text \<open>
  The callback of the second \<open>calls.map\<close>. The interface is looked up under the target
  as the caller gave it, before the default is filled in; were there none, calling
  \<open>getFunction\<close> on \<open>undefined\<close> would be a TypeError.
\<close>

definition normalizeABICall ::
  "('abi, 'iface) ethers \<Rightarrow> env \<Rightarrow> config \<Rightarrow> (string \<rightharpoonup> 'iface) \<Rightarrow> 'abi abi_call \<Rightarrow> call_data result" where
  "normalizeABICall N E config interfacesByContractAddress c =
     (let contractInterface = interfacesByContractAddress (key_of (target c));
          target = default_target config (target c);
          method = fst (call c);
          argValues = snd (call c)
      in case contractInterface of
           None \<Rightarrow> Inl TypeError
         | Some iface \<Rightarrow>
             (case getFunction_inputs N iface method of
                Inl e \<Rightarrow> Inl e
              | Inr argTypes \<Rightarrow>
                  (case invariant (length argTypes = length argValues)
                          (arity_message E argTypes argValues) of
                     Inl e \<Rightarrow> Inl e
                   | Inr _ \<Rightarrow>
                       (let args = zip argValues argTypes
                        in Inr \<lparr>d_method = method @ ''('' @ join_comma argTypes @ '')'',
                                args = args, d_target = target\<rparr>))))"

text \<open>How an ABI-mode descriptor looks to \<open>JSON.stringify\<close>.\<close>

definition call_data_view :: "call_data \<Rightarrow> jstree" where
  "call_data_view d =
     Object
       [(''method'', Data (JStr (d_method d))),
        (''args'', Data (JArr (map (\<lambda>a. JArr [fst a, JStr (snd a)]) (args d)))),
        (''target'', Data (JStr (d_target d)))]"

text \<open>
  The callback of \<open>decoded.map\<close>: the interface is looked up under the target of the
  normalised call, the one with the default filled in. \<open>calls[i]\<close> beyond the end of
  \<open>calls\<close> is \<open>undefined\<close>, and so is the interface of a target under which nothing was
  stored; both reads end in a TypeError.
\<close>

definition decodeABIResult ::
  "('abi, 'iface) ethers \<Rightarrow> (string \<rightharpoonup> 'iface) \<Rightarrow> call_data list \<Rightarrow> nat \<Rightarrow> jsval \<Rightarrow> jsval list result" where
  "decodeABIResult N interfacesByContractAddress calls i result =
     (if i < length calls
      then (case interfacesByContractAddress (d_target (calls ! i)) of
              None \<Rightarrow> Inl TypeError
            | Some iface \<Rightarrow> decodeFunctionResult N iface (d_method (calls ! i)) result)
      else Inl TypeError)"

text \<open>\<open>MULTICALL_ABI.decodeFunctionResult('aggregate', outerResults)[1]\<close> and the \<open>map\<close> over
  it; an element 1 that is missing or not an array has no \<open>map\<close>.\<close>

definition decodeABIResults ::
  "('abi, 'iface) ethers \<Rightarrow> (string \<rightharpoonup> 'iface) \<Rightarrow> call_data list \<Rightarrow> string \<Rightarrow> jsval list list result" where
  "decodeABIResults N interfacesByContractAddress calls outerResults =
     (case decodeFunctionResult N (MULTICALL_ABI N) ''aggregate'' (JStr outerResults) of
        Inl e \<Rightarrow> Inl e
      | Inr res \<Rightarrow>
          (case (if 1 < length res then res ! 1 else JUndefined) of
             JArr decoded \<Rightarrow>
               map_result (\<lambda>p. decodeABIResult N interfacesByContractAddress calls (fst p) (snd p))
                 (enumerate 0 decoded)
           | _ \<Rightarrow> Inl TypeError))"

definition aggregateDecodedFromABI ::
  "('abi, 'iface) ethers \<Rightarrow> env \<Rightarrow> config \<Rightarrow> world \<Rightarrow> 'abi abi_call one_or_many
     \<Rightarrow> jsval list list result \<times> world" where
  "aggregateDecodedFromABI N E config w input =
     (let calls = as_array input
      in case map_result (interface_entry N) calls of
           Inl e \<Rightarrow> (Inl e, w)
         | Inr entries \<Rightarrow>
             (let interfacesByContractAddress = fromEntries entries
              in case map_result (normalizeABICall N E config interfacesByContractAddress) calls of
                   Inl e \<Rightarrow> (Inl e, w)
                 | Inr calls' \<Rightarrow>
                     (case makeMulticallData E call_data_view w calls' False of
                        (Inl e, w1) \<Rightarrow> (Inl e, w1)
                      | (Inr callDataBytes, w1) \<Rightarrow>
                          (let w2 = w1\<lparr>eth_calls := eth_calls w1 @ [callDataBytes]\<rparr>
                           in case ethCall E callDataBytes config of
                                Inl e \<Rightarrow> (Inl e, w2)
                              | Inr outerResults \<Rightarrow>
                                  (case decodeABIResults N interfacesByContractAddress calls' outerResults of
                                     Inl e \<Rightarrow> (Inl e, w2)
                                   | Inr decoded \<Rightarrow> (Inr decoded, w2))))))"

subsection \<open>Hexadecimal strings as bytes\<close>

text \<open>
  The hashes and encodings are texts: \<open>0x\<close> and two hexadecimal digits per byte. The
  specification speaks of bytes; \<open>hex_to_bytes\<close> reads a text as the bytes it denotes
  (\<open>None\<close> for a text that is not of that form).
\<close>

type_synonym byte = "8 word"

definition hex_value :: "char \<Rightarrow> nat option" where
  "hex_value c =
     (let n = (of_char c :: nat)
      in if 48 \<le> n \<and> n \<le> 57 then Some (n - 48)
         else if 97 \<le> n \<and> n \<le> 102 then Some (n - 87)
         else if 65 \<le> n \<and> n \<le> 70 then Some (n - 55)
         else None)"

fun hex_pairs :: "string \<Rightarrow> byte list option" where
  "hex_pairs [] = Some []"
| "hex_pairs [c] = None"
| "hex_pairs (a # b # cs) =
     (case hex_value a of
        None \<Rightarrow> None
      | Some h \<Rightarrow>
          (case hex_value b of
             None \<Rightarrow> None
           | Some l \<Rightarrow>
               (case hex_pairs cs of
                  None \<Rightarrow> None
                | Some bs \<Rightarrow> Some (of_nat (16 * h + l) # bs))))"

definition hex_to_bytes :: "string \<Rightarrow> byte list option" where
  "hex_to_bytes s = (if take 2 s = ''0x'' then hex_pairs (drop 2 s) else None)"

subsection \<open>The envelope builder as the specification words it\<close>

text \<open>
  On bytes: the selector is the first 4 bytes of the hash of the canonical method
  string, the encoded arguments are the ABI encoding of the argument types and values
  when arguments exist and empty otherwise, and the call data is the selector followed
  by the encoded arguments. A codec error is kept as it is.
\<close>

definition spec_selector :: "env \<Rightarrow> string \<Rightarrow> byte list option" where
  "spec_selector E m = map_option (take 4) (hex_to_bytes (keccak256 E (toUtf8Bytes E m)))"

definition spec_encodedArgs :: "env \<Rightarrow> 'a call_data_scheme \<Rightarrow> byte list option result" where
  "spec_encodedArgs E d =
     (if args d = [] then Inr (Some [])
      else (case encodeParameters E (map PType (map snd (args d))) (map fst (args d)) of
              Inl e \<Rightarrow> Inl e
            | Inr encoded \<Rightarrow> Inr (hex_to_bytes encoded)))"

definition spec_callData :: "env \<Rightarrow> 'a call_data_scheme \<Rightarrow> byte list option result" where
  "spec_callData E d =
     (case spec_encodedArgs E d of
        Inl e \<Rightarrow> Inl e
      | Inr encodedArgs \<Rightarrow>
          Inr (case spec_selector E (d_method d) of
                 None \<Rightarrow> None
               | Some selector \<Rightarrow> map_option (\<lambda>enc. selector @ enc) encodedArgs))"

subsection \<open>Notions used in the statements\<close>

text \<open>\<open>parenthesised_group s\<close>: the string contains a parenthesised group, an opening
  parenthesis followed on the same line by a closing one.\<close>

definition parenthesised_group :: "string \<Rightarrow> bool" where
  "parenthesised_group s \<longleftrightarrow>
     (\<exists>p b q. s = p @ ''('' @ b @ '')'' @ q \<and> (\<forall>ch\<in>set b. \<not> line_terminator ch))"

text \<open>\<open>declared_bool types i\<close>: the declared type of field \<open>i\<close> is the boolean type.\<close>

definition declared_bool :: "string list \<Rightarrow> nat \<Rightarrow> bool" where
  "declared_bool types i \<longleftrightarrow> i < length types \<and> types ! i = ''bool''"

text \<open>
  The coercion as the specification words it: a field whose declared type is the
  boolean type becomes true exactly when the string form of the decoded value is
  \<open>true\<close>, every other field is kept. \<open>coerced_values ds rss\<close> is the flat sequence of
  the coerced fields, in call order then field order, when \<open>rss\<close> holds the decoded
  fields of each call; \<open>flat_index rss k i\<close> is the position of field \<open>i\<close> of call \<open>k\<close>
  in that sequence.
\<close>

definition spec_coerce :: "string list \<Rightarrow> jsval list \<Rightarrow> jsval list" where
  "spec_coerce types rs =
     map (\<lambda>p. if declared_bool types (fst p) then JBool (js_toString (snd p) = Inr ''true'') else snd p)
         (enumerate 0 rs)"

definition coerced_values :: "descriptor list \<Rightarrow> jsval list list \<Rightarrow> jsval list" where
  "coerced_values ds rss = concat (map2 spec_coerce (map returnTypes ds) rss)"

definition flat_index :: "jsval list list \<Rightarrow> nat \<Rightarrow> nat \<Rightarrow> nat" where
  "flat_index rss k i = length (concat (take k rss)) + i"

text \<open>\<open>uses_key k c\<close>: the call has at least one input argument and a return field keyed \<open>k\<close>.\<close>

definition uses_key :: "string \<Rightarrow> sig_call \<Rightarrow> bool" where
  "uses_key k c \<longleftrightarrow> length (snd (call c)) > 0 \<and> k \<in> fst ` set (returns c)"

text \<open>The envelope builder invoked on one call list after the other: the world after
  the last invocation.\<close>

fun build_many ::
  "env \<Rightarrow> ('a call_data_scheme \<Rightarrow> jstree) \<Rightarrow> world \<Rightarrow> 'a call_data_scheme list list \<Rightarrow> world" where
  "build_many E view w [] = w"
| "build_many E view w (calls # rest) =
     build_many E view (snd (makeMulticallData E view w calls False)) rest"

text \<open>\<open>strips_0x f\<close>: what is expected of \<open>strip0x\<close>, that it removes a leading \<open>0x\<close>.\<close>

definition strips_0x :: "(string \<Rightarrow> string) \<Rightarrow> bool" where
  "strips_0x f \<longleftrightarrow> (\<forall>s. f (''0x'' @ s) = s)"

text \<open>\<open>last_abi k cs\<close>: the ABI supplied with the last call of \<open>cs\<close> whose target, as the
  caller gave it, is the key \<open>k\<close>; none when no call has that key.\<close>

definition last_abi :: "string \<Rightarrow> 'abi abi_call list \<Rightarrow> 'abi option" where
  "last_abi k cs = map_option abi (find (\<lambda>c. key_of (target c) = k) (rev cs))"

subsection \<open>A concrete environment for the examples\<close>

text \<open>
  Stand-ins for the collaborators, small enough to evaluate: a toy hash (the text
  itself in hexadecimal, padded or cut to 32 bytes), a toy codec (one byte per number,
  hexadecimal strings as they are) and a remote side that answers with a fixed
  response. They only serve the examples; every theorem about the pipeline holds for
  all collaborators.
\<close>

definition hex_digit :: "nat \<Rightarrow> char" where
  "hex_digit n = ''0123456789abcdef'' ! (n mod 16)"

definition hex_byte :: "nat \<Rightarrow> string" where
  "hex_byte n = [hex_digit (n div 16), hex_digit n]"

definition stub_keccak256 :: "string \<Rightarrow> string" where
  "stub_keccak256 s = ''0x'' @ concat (map (\<lambda>c. hex_byte (of_char c)) (take 32 (s @ replicate 32 (CHR 0x00))))"

definition stub_strip0x :: "string \<Rightarrow> string" where
  "stub_strip0x s = (if take 2 s = ''0x'' then drop 2 s else s)"

fun stub_encode_value :: "jsval \<Rightarrow> string option"
  and stub_encode_values :: "jsval list \<Rightarrow> string option" where
  "stub_encode_value JUndefined = None"
| "stub_encode_value JNull = None"
| "stub_encode_value (JBool b) = Some (if b then ''01'' else ''00'')"
| "stub_encode_value (JNum n) = (if 0 \<le> n \<and> n < 256 then Some (hex_byte (nat n)) else None)"
| "stub_encode_value (JBig n) = (if 0 \<le> n \<and> n < 256 then Some (hex_byte (nat n)) else None)"
| "stub_encode_value (JStr s) = (if take 2 s = ''0x'' then Some (drop 2 s) else None)"
| "stub_encode_value (JArr vs) = stub_encode_values vs"
| "stub_encode_values [] = Some []"
| "stub_encode_values (v # vs) =
     (case stub_encode_value v of
        None \<Rightarrow> None
      | Some h \<Rightarrow> (case stub_encode_values vs of None \<Rightarrow> None | Some hs \<Rightarrow> Some (h @ hs)))"

definition stub_encodeParameters :: "paramtype list \<Rightarrow> jsval list \<Rightarrow> string result" where
  "stub_encodeParameters types values =
     (case stub_encode_values values of
        None \<Rightarrow> Inl (Thrown ''invalid value'')
      | Some h \<Rightarrow> Inr (''0x'' @ h))"

definition bytes_to_nat :: "byte list \<Rightarrow> nat" where
  "bytes_to_nat bs = foldl (\<lambda>a b. 256 * a + unat b) 0 bs"

definition stub_decodeParameters :: "string list \<Rightarrow> jsval \<Rightarrow> jsval list result" where
  "stub_decodeParameters types blob =
     (if types = [''uint256'', ''bytes[]'']
      then (if blob = JStr ''0xa1'' then Inr [JBig 100, JArr [JStr ''0x01f4'']]
            else if blob = JStr ''0xa2'' then Inr [JBig 100, JArr [JStr ''0x01f4'', JStr ''0x01'']]
            else if blob = JStr ''0xa3''
              then Inr [JBig 100, JArr [JStr ''0x01f4'', JStr ''0x01'', JStr ''0x07'']]
            else if blob = JStr ''0xa4'' then Inr [JBig 100, JArr [JStr ''0xb4'']]
            else Inl (Thrown ''data out-of-bounds''))
      else if types = [''bool'', ''uint256'', ''bool'', ''bool''] \<and> blob = JStr ''0xb4''
        then Inr [JBool False, JBig 5, JBool True, JStr ''True'']
      else (case blob of
              JStr s \<Rightarrow>
                (case hex_to_bytes s of
                   None \<Rightarrow> Inl (Thrown ''invalid hexadecimal data'')
                 | Some bs \<Rightarrow>
                     Inr (map (\<lambda>t. if t = ''bool'' then JBool (bytes_to_nat bs \<noteq> 0)
                                     else JBig (int (bytes_to_nat bs))) types))
            | _ \<Rightarrow> Inl (Thrown ''invalid data'')))"

fun stub_json_value :: "jsval \<Rightarrow> string" where
  "stub_json_value JUndefined = ''null''"
| "stub_json_value JNull = ''null''"
| "stub_json_value (JBool b) = (if b then ''true'' else ''false'')"
| "stub_json_value (JNum n) = show_int n"
| "stub_json_value (JBig n) = show_int n"
| "stub_json_value (JStr s) = [CHR 0x22] @ s @ [CHR 0x22]"
| "stub_json_value (JArr vs) = ''['' @ join_comma (map stub_json_value vs) @ '']''"

fun stub_json :: "jstree \<Rightarrow> string" where
  "stub_json (Data v) = stub_json_value v"
| "stub_json Function = ''null''"
| "stub_json (Array ts) = ''['' @ join_comma (map stub_json ts) @ '']''"
| "stub_json (Object kvs) =
     ''{'' @ join_comma (map (\<lambda>kv. [CHR 0x22] @ fst kv @ [CHR 0x22] @ '':'' @ stub_json (snd kv)) kvs) @ ''}''"

definition stub_env :: "string \<Rightarrow> env" where
  "stub_env response =
     \<lparr>keccak256 = stub_keccak256,
      toUtf8Bytes = (\<lambda>s. s),
      strip0x = stub_strip0x,
      encodeParameters = stub_encodeParameters,
      decodeParameters = stub_decodeParameters,
      ethCall = (\<lambda>callData config. Inr response),
      JSON_stringify = stub_json\<rparr>"

definition config0 :: config where
  "config0 = \<lparr>multicallAddress = ''0x00aa''\<rparr>"

definition world0 :: world where
  "world0 = \<lparr>memo_cache = Map.empty, encode_runs = 0, eth_calls = []\<rparr>"

text \<open>Calls used in the examples.\<close>

definition balance_call :: sig_call where
  "balance_call =
     \<lparr>call = (''balanceOf(address)(uint256)'', [JStr ''0x0abc'']),
      target = Some ''0x00c1'',
      returns = [(''bal'', None)]\<rparr>"

definition double :: transform where
  "double v =
     (case v of
        JNum n \<Rightarrow> Inr (JNum (2 * n))
      | JBig n \<Rightarrow> Inr (JBig (2 * n))
      | _ \<Rightarrow> Inl (Thrown ''not a number''))"

text \<open>Two calls keyed \<open>a\<close> and \<open>b\<close>, and a third one keyed \<open>a\<close> again; the second takes
  no argument.\<close>

definition three_calls :: "sig_call list" where
  "three_calls =
     [\<lparr>call = (''balanceOf(address)(uint256)'', [JStr ''0x0111'']),
       target = Some ''0x00c1'',
       returns = [(''a'', None)]\<rparr>,
      \<lparr>call = (''totalSupply()(uint256)'', []),
       target = Some ''0x00c1'',
       returns = [(''b'', None)]\<rparr>,
      \<lparr>call = (''balanceOf(address)(uint256)'', [JStr ''0x0222'']),
       target = None,
       returns = [(''a'', Some double)]\<rparr>]"

text \<open>A call that returns three booleans and a number, and its descriptor.\<close>

definition flags_call :: sig_call where
  "flags_call =
     \<lparr>call = (''flags()(bool,uint256,bool,bool)'', []), target = Some ''0x00c2'',
      returns = [(''f1'', None), (''n'', None), (''f2'', None), (''f3'', None)]\<rparr>"

definition flags_descriptor :: descriptor where
  "flags_descriptor =
     \<lparr>d_method = ''flags()'', args = [], d_target = ''0x00c2'',
      returnTypes = [''bool'', ''uint256'', ''bool'', ''bool''],
      d_returns = [(''f1'', None), (''n'', None), (''f2'', None), (''f3'', None)]\<rparr>"

definition three_descriptors :: "descriptor list" where
  "three_descriptors =
     [\<lparr>d_method = ''balanceOf(address)'', args = [(JStr ''0x0111'', ''address'')],
       d_target = ''0x00c1'', returnTypes = [''uint256''], d_returns = [(''a'', None)]\<rparr>,
      \<lparr>d_method = ''totalSupply()'', args = [],
       d_target = ''0x00c1'', returnTypes = [''uint256''], d_returns = [(''b'', None)]\<rparr>,
      \<lparr>d_method = ''balanceOf(address)'', args = [(JStr ''0x0222'', ''address'')],
       d_target = ''0x00aa'', returnTypes = [''uint256''], d_returns = [(''a'', Some double)]\<rparr>]"

definition pair_call :: sig_call where
  "pair_call =
     \<lparr>call = (''getReserves()(uint256,uint256)'', []), target = Some ''0x00c3'',
      returns = [(''reserve0'', None)]\<rparr>"

definition pair_descriptor :: descriptor where
  "pair_descriptor =
     \<lparr>d_method = ''getReserves()'', args = [], d_target = ''0x00c3'',
      returnTypes = [''uint256'', ''uint256''], d_returns = [(''reserve0'', None)]\<rparr>"

text \<open>A signature without parentheses, and a signature declaring three argument types
  in a call that supplies two values.\<close>

definition bare_call :: sig_call where
  "bare_call = \<lparr>call = (''totalSupply'', []), target = Some ''0x00c1'', returns = [(''supply'', None)]\<rparr>"

definition short_call :: sig_call where
  "short_call =
     \<lparr>call = (''transfer(address,uint256,bytes)(bool)'', [JStr ''0x0111'', JNum 5]),
      target = Some ''0x00c1'', returns = [(''ok'', None)]\<rparr>"

text \<open>A signature declaring two argument types in a call that supplies one value, a
  string in which a percent sign is followed by the letter s.\<close>

definition placeholder_call :: sig_call where
  "placeholder_call =
     \<lparr>call = (''setName(string,uint256)(bool)'', [JStr ''100%sure'']),
      target = Some ''0x00c1'', returns = [(''ok'', None)]\<rparr>"

text \<open>The three descriptors with another transform in the last return-field spec.\<close>

definition other_descriptors :: "descriptor list" where
  "other_descriptors =
     [three_descriptors ! 0, three_descriptors ! 1,
      (three_descriptors ! 2)\<lparr>d_returns := [(''a'', Some Inr)]\<rparr>]"

text \<open>
  A stand-in for the interface library: an ABI is a list of functions, each a name
  with its input and output types, and an interface is that list; a function is found
  by its name or its signature and results are decoded by the toy codec. The
  multicall interface lists the eight functions of the fixed ABI.
\<close>

type_synonym stub_fragment = "string \<times> string list \<times> string list"

definition stub_signature :: "stub_fragment \<Rightarrow> string" where
  "stub_signature f = fst f @ ''('' @ join_comma (fst (snd f)) @ '')''"

definition stub_find :: "stub_fragment list \<Rightarrow> string \<Rightarrow> stub_fragment option" where
  "stub_find iface m = find (\<lambda>f. fst f = m \<or> stub_signature f = m) iface"

definition multicall_fragments :: "stub_fragment list" where
  "multicall_fragments =
     [(''getCurrentBlockTimestamp'', [], [''uint256'']),
      (''aggregate'', [''tuple[]''], [''uint256'', ''bytes[]'']),
      (''getLastBlockHash'', [], [''bytes32'']),
      (''getEthBalance'', [''address''], [''uint256'']),
      (''getCurrentBlockDifficulty'', [], [''uint256'']),
      (''getCurrentBlockGasLimit'', [], [''uint256'']),
      (''getCurrentBlockCoinbase'', [], [''address'']),
      (''getBlockHash'', [''uint256''], [''bytes32''])]"

definition stub_ethers :: "(stub_fragment list, stub_fragment list) ethers" where
  "stub_ethers =
     \<lparr>Interface = Inr,
      getFunction_inputs =
        (\<lambda>iface m. case stub_find iface m of
                      None \<Rightarrow> Inl (Thrown ''no matching function'')
                    | Some f \<Rightarrow> Inr (fst (snd f))),
      decodeFunctionResult =
        (\<lambda>iface m blob. case stub_find iface m of
                           None \<Rightarrow> Inl (Thrown ''no matching function'')
                         | Some f \<Rightarrow> stub_decodeParameters (snd (snd f)) blob),
      MULTICALL_ABI = multicall_fragments\<rparr>"

text \<open>Two calls to the same target whose ABIs disagree on the output type of
  \<open>balanceOf\<close>, and a call that omits its target.\<close>

definition abi_uint :: "stub_fragment list" where
  "abi_uint = [(''balanceOf'', [''address''], [''uint256''])]"

definition abi_bool :: "stub_fragment list" where
  "abi_bool = [(''balanceOf'', [''address''], [''bool''])]"

definition shared_calls :: "stub_fragment list abi_call list" where
  "shared_calls =
     [\<lparr>call = (''balanceOf'', [JStr ''0x0111'']), target = Some ''0x00c1'', abi = abi_uint\<rparr>,
      \<lparr>call = (''balanceOf'', [JStr ''0x0222'']), target = Some ''0x00c1'', abi = abi_bool\<rparr>]"

definition omitted_calls :: "stub_fragment list abi_call list" where
  "omitted_calls = [\<lparr>call = (''balanceOf'', [JStr ''0x0111'']), target = None, abi = abi_uint\<rparr>]"

text \<open>A call that omits its target, and a call whose target is the multicall address
  \<open>0x00aa\<close> itself.\<close>

definition mixed_calls :: "stub_fragment list abi_call list" where
  "mixed_calls =
     [\<lparr>call = (''balanceOf'', [JStr ''0x0111'']), target = None, abi = abi_uint\<rparr>,
      \<lparr>call = (''balanceOf'', [JStr ''0x0222'']), target = Some ''0x00aa'', abi = abi_bool\<rparr>]"

section \<open>Properties\<close>

subsection \<open>Auxiliary facts\<close>

lemma map_result_Inr_iff:
  "map_result f xs = Inr ys \<longleftrightarrow> list_all2 (\<lambda>x y. f x = Inr y) xs ys"
proof (induction xs arbitrary: ys)
  case Nil
  then show ?case by auto
next
  case (Cons x xs)
  show ?case
  proof (cases "f x")
    case (Inl e)
    then show ?thesis by (cases ys) auto
  next
    case (Inr y)
    show ?thesis
    proof (cases "map_result f xs")
      case (Inl e)
      with Inr Cons.IH show ?thesis by (cases ys) auto
    next
      case zs: (Inr zs)
      with Inr Cons.IH [of zs] Cons.IH show ?thesis by (cases ys) auto
    qed
  qed
qed

lemma map_result_append:
  "map_result f (xs @ ys) =
     (case map_result f xs of
        Inl e \<Rightarrow> Inl e
      | Inr us \<Rightarrow> (case map_result f ys of Inl e \<Rightarrow> Inl e | Inr vs \<Rightarrow> Inr (us @ vs)))"
  by (induction xs) (auto split: sum.splits)

lemma map_result_total:
  "(\<And>x. x \<in> set xs \<Longrightarrow> \<exists>y. f x = Inr y) \<Longrightarrow> \<exists>ys. map_result f xs = Inr ys"
proof (induction xs)
  case Nil
  then show ?case by simp
next
  case (Cons x xs)
  then obtain y where "f x = Inr y" by auto
  moreover from Cons obtain ys where "map_result f xs = Inr ys" by auto
  ultimately show ?case by simp
qed

lemma coerceFields_Inr:
  assumes "coerceFields types rs = Inr vs"
  shows "length vs = length rs \<and> (\<forall>i<length rs. coerceField types i (rs ! i) = Inr (vs ! i))"
proof -
  from assms have l2: "list_all2 (\<lambda>p y. coerceField types (fst p) (snd p) = Inr y) (enumerate 0 rs) vs"
    by (simp add: coerceFields_def map_result_Inr_iff)
  then have len: "length vs = length rs"
    by (auto dest: list_all2_lengthD)
  moreover have "coerceField types i (rs ! i) = Inr (vs ! i)" if "i < length rs" for i
    using list_all2_nthD[OF l2, of i] that by (simp add: nth_enumerate_eq)
  ultimately show ?thesis by blast
qed

lemma coerceField_cases:
  "coerceField types i r =
     (if i < length types \<and> types ! i = ''bool''
      then (if r = JUndefined \<or> r = JNull then Inl TypeError
            else Inr (JBool (js_toString r = Inr ''true'')))
      else Inr r)"
  by (cases r) (auto simp: coerceField_def)

subsection \<open>The key-to-argument map\<close>

lemma foldl_upd_const:
  "foldl (\<lambda>acc m. acc(fst m \<mapsto> a)) acc ms k = (if k \<in> fst ` set ms then Some a else acc k)"
  by (induction ms arbitrary: acc) auto

lemma keyToArgMap_step_apply:
  "keyToArgMap_step acc c k = (if uses_key k c then Some (snd (call c)) else acc k)"
  by (simp add: keyToArgMap_step_def uses_key_def foldl_upd_const Let_def)

lemma keyToArgMap_of_snoc:
  "keyToArgMap_of (cs @ [c]) k = (if uses_key k c then Some (snd (call c)) else keyToArgMap_of cs k)"
  by (simp add: keyToArgMap_of_def keyToArgMap_step_apply)

lemma aggregate_Inr:
  assumes "aggregate E config w input = (Inr out, w')"
  shows "\<exists>ds blob w1 outer ret.
           map_result (normalizeCall E config) (as_array input) = Inr ds \<and>
           makeMulticallData E descriptor_view w ds False = (Inr blob, w1) \<and>
           ethCall E blob config = Inr outer \<and>
           decodeAndMap E ds outer = Inr ret \<and>
           out = \<lparr>results = ret, keyToArgMap = keyToArgMap_of (as_array input)\<rparr> \<and>
           w' = w1\<lparr>eth_calls := eth_calls w1 @ [blob]\<rparr>"
  using assms by (auto simp: aggregate_def Let_def split: sum.splits prod.splits)

text \<open>
  Claim C8. For every call list, \<open>keyToArgMap\<close> contains an entry for key \<open>k\<close> if and
  only if some call has at least one input argument and a return-field spec keyed \<open>k\<close>;
  each such entry maps \<open>k\<close> to the argument-value list of the last call in list order
  that has at least one argument and uses key \<open>k\<close>; calls with no arguments contribute
  no entries even if they have return fields.

  The map is a function of the call list alone, and it is the \<open>keyToArgMap\<close> of every
  result \<open>aggregate\<close> returns.
\<close>

theorem keyToArgMap_last_wins:
  "(keyToArgMap_of cs k = Some a \<longleftrightarrow>
      (\<exists>i<length cs. uses_key k (cs ! i) \<and> snd (call (cs ! i)) = a \<and>
          (\<forall>j<length cs. i < j \<longrightarrow> \<not> uses_key k (cs ! j)))) \<and>
   (keyToArgMap_of cs k = None \<longleftrightarrow> (\<forall>i<length cs. \<not> uses_key k (cs ! i))) \<and>
   (\<forall>E config w w' out.
      aggregate E config w (Many cs) = (Inr out, w') \<longrightarrow> keyToArgMap out = keyToArgMap_of cs)"
proof -
  have map_part:
    "(keyToArgMap_of cs k = Some a \<longleftrightarrow>
        (\<exists>i<length cs. uses_key k (cs ! i) \<and> snd (call (cs ! i)) = a \<and>
            (\<forall>j<length cs. i < j \<longrightarrow> \<not> uses_key k (cs ! j)))) \<and>
     (keyToArgMap_of cs k = None \<longleftrightarrow> (\<forall>i<length cs. \<not> uses_key k (cs ! i)))"
  proof (induction cs rule: rev_induct)
    case Nil
    show ?case by (simp add: keyToArgMap_of_def)
  next
    case (snoc c cs)
    show ?case
    proof (cases "uses_key k c")
      case True
      have "(\<exists>i<Suc (length cs). uses_key k ((cs @ [c]) ! i) \<and> snd (call ((cs @ [c]) ! i)) = a \<and>
               (\<forall>j<Suc (length cs). i < j \<longrightarrow> \<not> uses_key k ((cs @ [c]) ! j))) \<longleftrightarrow> snd (call c) = a"
        (is "?L \<longleftrightarrow> ?R")
      proof
        assume ?L
        then obtain i where i: "i < Suc (length cs)" "uses_key k ((cs @ [c]) ! i)"
          "snd (call ((cs @ [c]) ! i)) = a"
          "\<forall>j<Suc (length cs). i < j \<longrightarrow> \<not> uses_key k ((cs @ [c]) ! j)" by blast
        have "i = length cs"
        proof (rule ccontr)
          assume "i \<noteq> length cs"
          with i(1) have "i < length cs" by simp
          with i(4) have "\<not> uses_key k ((cs @ [c]) ! length cs)"
            by (metis lessI)
          with True show False by simp
        qed
        with i(3) show ?R by simp
      next
        assume ?R
        with True show ?L by (intro exI [of _ "length cs"]) simp
      qed
      moreover have "\<not> (\<forall>i<Suc (length cs). \<not> uses_key k ((cs @ [c]) ! i))"
        using True by (auto intro: exI [of _ "length cs"])
      ultimately show ?thesis
        using True by (simp add: keyToArgMap_of_snoc)
    next
      case False
      have a: "(\<exists>i<Suc (length cs). uses_key k ((cs @ [c]) ! i) \<and> snd (call ((cs @ [c]) ! i)) = a \<and>
               (\<forall>j<Suc (length cs). i < j \<longrightarrow> \<not> uses_key k ((cs @ [c]) ! j))) \<longleftrightarrow>
            (\<exists>i<length cs. uses_key k (cs ! i) \<and> snd (call (cs ! i)) = a \<and>
               (\<forall>j<length cs. i < j \<longrightarrow> \<not> uses_key k (cs ! j)))"
        using False by (auto simp: less_Suc_eq nth_append)
      have b: "(\<forall>i<Suc (length cs). \<not> uses_key k ((cs @ [c]) ! i)) \<longleftrightarrow>
               (\<forall>i<length cs. \<not> uses_key k (cs ! i))"
        using False by (auto simp: less_Suc_eq nth_append)
      from False snoc.IH a b show ?thesis
        by (simp add: keyToArgMap_of_snoc)
    qed
  qed
  have "keyToArgMap out = keyToArgMap_of cs"
    if "aggregate E config w (Many cs) = (Inr out, w')" for E config w w' out
    using aggregate_Inr [OF that] by auto
  with map_part show ?thesis by blast
qed

text \<open>
  In \<open>three_calls\<close> the key \<open>a\<close> is used by the first and the third call, both with an
  argument: the entry holds the third call's argument. The key \<open>b\<close> is used only by the
  call without arguments and has no entry.
\<close>

theorem keyToArgMap_last_wins_witness:
  "keyToArgMap_of three_calls ''a'' = Some [JStr ''0x0222''] \<and>
   keyToArgMap_of three_calls ''b'' = None \<and>
   uses_key ''a'' (three_calls ! 0) \<and> uses_key ''a'' (three_calls ! 2) \<and>
   \<not> uses_key ''b'' (three_calls ! 1)"
proof -
  have u0: "uses_key ''a'' (three_calls ! 0)" and u2: "uses_key ''a'' (three_calls ! 2)"
    and u1: "\<not> uses_key ''a'' (three_calls ! 1)"
    by (simp_all add: uses_key_def three_calls_def)
  have b: "\<not> uses_key ''b'' (three_calls ! 0)" "\<not> uses_key ''b'' (three_calls ! 1)"
    "\<not> uses_key ''b'' (three_calls ! 2)"
    by (simp_all add: uses_key_def three_calls_def)
  have len: "length three_calls = 3" by (simp add: three_calls_def)
  have arg: "snd (call (three_calls ! 2)) = [JStr ''0x0222'']"
    by (simp add: three_calls_def)
  have last: "\<exists>i<length three_calls. uses_key ''a'' (three_calls ! i) \<and>
      snd (call (three_calls ! i)) = [JStr ''0x0222''] \<and>
      (\<forall>j<length three_calls. i < j \<longrightarrow> \<not> uses_key ''a'' (three_calls ! j))"
    using u2 arg len by (intro exI [of _ 2]) simp
  have none: "\<forall>i<length three_calls. \<not> uses_key ''b'' (three_calls ! i)"
    using b len by (auto simp: less_Suc_eq numeral_3_eq_3 numeral_2_eq_2)
  from keyToArgMap_last_wins [of three_calls "''a''" "[JStr ''0x0222'']"]
    last
  have "keyToArgMap_of three_calls ''a'' = Some [JStr ''0x0222'']"
    by blast
  moreover from keyToArgMap_last_wins [of three_calls "''b''"] none
  have "keyToArgMap_of three_calls ''b'' = None"
    by blast
  ultimately show ?thesis using u0 u2 b(2) by simp
qed

subsection \<open>Mapping the decoded values\<close>

lemma mapResults_untouched:
  "mapResults metas vals ret0 = Inr ret \<Longrightarrow> (\<forall>j<length vals. fst (metas ! j) \<noteq> k) \<Longrightarrow>
     original ret k = original ret0 k \<and> transformed ret k = transformed ret0 k"
proof (induction metas vals ret0 rule: mapResults.induct)
  case (1 metas ret)
  then show ?case by simp
next
  case (2 v vs ret)
  then show ?case by simp
next
  case (3 m metas v vs ret0)
  from "3.prems"(1) obtain t where t: "apply_transform (snd m) v = Inr t"
    and run: "mapResults metas vs
        (ret0\<lparr>original := (original ret0)(fst m \<mapsto> v), transformed := (transformed ret0)(fst m \<mapsto> t)\<rparr>) = Inr ret"
    by (auto simp: Let_def split: sum.splits)
  from "3.prems"(2) have k: "fst m \<noteq> k" and rest: "\<forall>j<length vs. fst (metas ! j) \<noteq> k"
    by auto
  from "3.IH" [OF refl refl t] run rest k show ?case
    by (simp add: Let_def)
qed

lemma mapResults_last:
  "mapResults metas vals ret0 = Inr ret \<Longrightarrow> i < length vals \<Longrightarrow>
   (\<forall>j<length vals. i < j \<longrightarrow> fst (metas ! j) \<noteq> fst (metas ! i)) \<Longrightarrow>
     original ret (fst (metas ! i)) = Some (vals ! i) \<and>
     (\<exists>t. apply_transform (snd (metas ! i)) (vals ! i) = Inr t \<and>
          transformed ret (fst (metas ! i)) = Some t)"
proof (induction metas vals ret0 arbitrary: i rule: mapResults.induct)
  case (1 metas ret)
  then show ?case by simp
next
  case (2 v vs ret)
  then show ?case by simp
next
  case (3 m metas v vs ret0)
  let ?ret1 = "ret0\<lparr>original := (original ret0)(fst m \<mapsto> v)\<rparr>"
  from "3.prems"(1) obtain t where t: "apply_transform (snd m) v = Inr t"
    and run: "mapResults metas vs
        (ret0\<lparr>original := (original ret0)(fst m \<mapsto> v), transformed := (transformed ret0)(fst m \<mapsto> t)\<rparr>) = Inr ret"
    by (auto simp: Let_def split: sum.splits)
  show ?case
  proof (cases i)
    case 0
    from "3.prems"(3) 0 have "\<forall>j<length vs. fst (metas ! j) \<noteq> fst m"
      by auto
    from mapResults_untouched [OF run this] t 0 show ?thesis by simp
  next
    case (Suc i')
    from "3.prems"(2) Suc have i': "i' < length vs" by simp
    from "3.prems"(3) Suc have "\<forall>j<length vs. i' < j \<longrightarrow> fst (metas ! j) \<noteq> fst (metas ! i')"
      by auto
    from "3.IH" [OF refl refl t] run i' this Suc show ?thesis
      by (simp add: Let_def)
  qed
qed

lemma mapResults_total:
  "length vals \<le> length metas \<Longrightarrow>
   (\<forall>i<length vals. \<exists>t. apply_transform (snd (metas ! i)) (vals ! i) = Inr t) \<Longrightarrow>
     \<exists>ret. mapResults metas vals ret0 = Inr ret"
proof (induction metas vals ret0 rule: mapResults.induct)
  case (1 metas ret)
  then show ?case by simp
next
  case (2 v vs ret)
  then show ?case by simp
next
  case (3 m metas v vs ret0)
  from "3.prems"(2) obtain t where t: "apply_transform (snd m) v = Inr t"
    by auto
  from "3.prems" have "length vs \<le> length metas"
    and "\<forall>i<length vs. \<exists>t. apply_transform (snd (metas ! i)) (vs ! i) = Inr t"
    by auto
  from "3.IH" [OF refl refl t this] t show ?case
    by (simp add: Let_def)
qed


lemma normalizeCall_returns:
  "normalizeCall E config c = Inr d \<Longrightarrow> d_returns d = returns c"
  by (auto simp: normalizeCall_def Let_def split: sum.splits prod.splits option.splits)

lemma normalized_returns:
  "map_result (normalizeCall E config) cs = Inr ds \<Longrightarrow> map d_returns ds = map returns cs"
proof (induction cs arbitrary: ds)
  case Nil
  then show ?case by simp
next
  case (Cons c cs)
  then show ?case
    by (auto split: sum.splits dest: normalizeCall_returns)
qed

lemma aggregate_run:
  assumes "map_result (normalizeCall E config) (as_array input) = Inr ds"
    and "makeMulticallData E descriptor_view w ds False = (Inr blob, w1)"
    and "ethCall E blob config = Inr outer"
  shows "aggregate E config w input =
           (case decodeAndMap E ds outer of
              Inl e \<Rightarrow> (Inl e, w1\<lparr>eth_calls := eth_calls w1 @ [blob]\<rparr>)
            | Inr ret \<Rightarrow>
                (Inr \<lparr>results = ret, keyToArgMap = keyToArgMap_of (as_array input)\<rparr>,
                 w1\<lparr>eth_calls := eth_calls w1 @ [blob]\<rparr>))"
  using assms by (simp add: aggregate_def Let_def split: sum.splits)

text \<open>
  Claim C7. For every batch whose flat return-field keys contain duplicates, the final
  \<open>original[k]\<close> (and \<open>transformed[k]\<close>) equals the decoded (and transformed) value of
  the last position in call-order-then-field-order whose key is \<open>k\<close>; duplicate keys
  never raise an error.

  \<open>vals\<close> is the flat sequence of decoded values and \<open>concat (map d_returns ds)\<close> the
  flat sequence of return-field specs, which is that of the caller's calls in call
  order then field order. The decode-and-map step succeeds whenever the count check
  passes, the values do not outnumber the specs and every transform returns, whether
  or not keys repeat; the position \<open>i\<close> is the last one of its key.
\<close>

theorem last_write_wins:
  assumes dec: "decodeOuter E ds outer = Inr (bn, vals)"
    and counts: "length (concat (map returnTypes ds)) = length (concat (map d_returns ds))"
    and len: "length vals \<le> length (concat (map d_returns ds))"
    and tr: "\<forall>i<length vals. \<exists>t. apply_transform (snd (concat (map d_returns ds) ! i)) (vals ! i) = Inr t"
  shows "\<exists>ret. decodeAndMap E ds outer = Inr ret \<and>
           (\<forall>i<length vals.
              (\<forall>j<length vals. i < j \<longrightarrow>
                  fst (concat (map d_returns ds) ! j) \<noteq> fst (concat (map d_returns ds) ! i)) \<longrightarrow>
              original ret (fst (concat (map d_returns ds) ! i)) = Some (vals ! i) \<and>
              (\<exists>t. apply_transform (snd (concat (map d_returns ds) ! i)) (vals ! i) = Inr t \<and>
                   transformed ret (fst (concat (map d_returns ds) ! i)) = Some t)) \<and>
           (\<forall>config w input blob w1.
              map_result (normalizeCall E config) (as_array input) = Inr ds \<and>
              makeMulticallData E descriptor_view w ds False = (Inr blob, w1) \<and>
              ethCall E blob config = Inr outer \<longrightarrow>
              concat (map d_returns ds) = concat (map returns (as_array input)) \<and>
              (\<exists>out w'. aggregate E config w input = (Inr out, w') \<and> results out = ret))"
proof -
  let ?metas = "concat (map d_returns ds)"
  let ?init = "\<lparr>blockNumber = bn, original = Map.empty, transformed = Map.empty\<rparr>"
  from mapResults_total [OF len tr]
  obtain ret where ret: "mapResults ?metas vals ?init = Inr ret" by blast
  from dec counts ret have run: "decodeAndMap E ds outer = Inr ret"
    by (simp add: decodeAndMap_def invariant_def Let_def)
  have last: "original ret (fst (?metas ! i)) = Some (vals ! i) \<and>
        (\<exists>t. apply_transform (snd (?metas ! i)) (vals ! i) = Inr t \<and>
             transformed ret (fst (?metas ! i)) = Some t)"
    if "i < length vals" "\<forall>j<length vals. i < j \<longrightarrow> fst (?metas ! j) \<noteq> fst (?metas ! i)" for i
    using mapResults_last [OF ret that] .
  have agg: "?metas = concat (map returns (as_array input)) \<and>
        (\<exists>out w'. aggregate E config w input = (Inr out, w') \<and> results out = ret)"
    if "map_result (normalizeCall E config) (as_array input) = Inr ds"
      "makeMulticallData E descriptor_view w ds False = (Inr blob, w1)"
      "ethCall E blob config = Inr outer" for config w input blob w1
    using aggregate_run [OF that] run normalized_returns [OF that(1)] by simp
  from run last agg show ?thesis by blast
qed



lemmas normalize_eval =
  normalizeCall_def signature_groups_def INSIDE_EVERY_PARENTHESES_def FIRST_CLOSING_PARENTHESES_def
  slice_1_m1_def resolve_argTypes_def invariant_def default_target_def line_terminator_def Let_def

lemma three_norm:
  "map_result (normalizeCall E config0) three_calls = Inr three_descriptors"
  by (simp add: three_calls_def three_descriptors_def config0_def normalize_eval)

text \<open>
  The three calls keyed \<open>a\<close>, \<open>b\<close>, \<open>a\<close>, answered with the values 500, 1 and 7: the
  entry \<open>a\<close> holds the third call's value, and its transform (doubling) gives 14.
\<close>

theorem last_write_wins_witness:
  "decodeOuter (stub_env ''0xa3'') three_descriptors ''0xa3'' = Inr (JBig 100, [JBig 500, JBig 1, JBig 7]) \<and>
   map fst (concat (map d_returns three_descriptors)) = [''a'', ''b'', ''a''] \<and>
   original (results (projr (fst (aggregate (stub_env ''0xa3'') config0 world0 (Many three_calls))))) ''a''
     = Some (JBig 7) \<and>
   transformed (results (projr (fst (aggregate (stub_env ''0xa3'') config0 world0 (Many three_calls))))) ''a''
     = Some (JBig 14)"
proof -
  let ?E = "stub_env ''0xa3''"
  let ?metas = "concat (map d_returns three_descriptors)"
  let ?vals = "[JBig 500, JBig 1, JBig 7]"
  have dec: "decodeOuter ?E three_descriptors ''0xa3'' = Inr (JBig 100, [JBig 500, JBig 1, JBig 7])"
    by code_simp
  have metas: "?metas = [(''a'', None), (''b'', None), (''a'', Some double)]"
    by (simp add: three_descriptors_def)
  have counts: "length (concat (map returnTypes three_descriptors)) = length ?metas"
    by (simp add: three_descriptors_def)
  have len: "length [JBig 500, JBig 1, JBig 7] \<le> length ?metas"
    by (simp add: metas)
  have tr: "\<forall>i<length [JBig 500, JBig 1, JBig 7].
      \<exists>t. apply_transform (snd (?metas ! i)) ([JBig 500, JBig 1, JBig 7] ! i) = Inr t"
    by (simp add: metas less_Suc_eq numeral_3_eq_3 apply_transform_def double_def)
  have norm: "map_result (normalizeCall ?E config0) (as_array (Many three_calls)) = Inr three_descriptors"
    by (simp add: three_norm)
  obtain blob w1 where build: "makeMulticallData ?E descriptor_view world0 three_descriptors False = (Inr blob, w1)"
  proof -
    have "\<not> isl (fst (makeMulticallData ?E descriptor_view world0 three_descriptors False))"
      by code_simp
    then show ?thesis
      using that by (cases "makeMulticallData ?E descriptor_view world0 three_descriptors False")
        (metis fst_conv sum.collapse(2))
  qed
  have eth: "ethCall ?E blob config0 = Inr ''0xa3''"
    by (simp add: stub_env_def)
  from last_write_wins [OF dec counts len tr]
  obtain ret where
    r1: "\<forall>i<length ?vals.
           (\<forall>j<length ?vals. i < j \<longrightarrow> fst (?metas ! j) \<noteq> fst (?metas ! i)) \<longrightarrow>
           original ret (fst (?metas ! i)) = Some (?vals ! i) \<and>
           (\<exists>t. apply_transform (snd (?metas ! i)) (?vals ! i) = Inr t \<and>
                transformed ret (fst (?metas ! i)) = Some t)"
    and r2: "\<forall>config w input blob w1.
           map_result (normalizeCall ?E config) (as_array input) = Inr three_descriptors \<and>
           makeMulticallData ?E descriptor_view w three_descriptors False = (Inr blob, w1) \<and>
           ethCall ?E blob config = Inr ''0xa3'' \<longrightarrow>
           ?metas = concat (map returns (as_array input)) \<and>
           (\<exists>out w'. aggregate ?E config w input = (Inr out, w') \<and> results out = ret)"
    by blast
  from r2 norm build eth
  obtain out w' where agg: "aggregate ?E config0 world0 (Many three_calls) = (Inr out, w')"
    and out: "results out = ret"
    by blast
  have two: "2 < length ?vals" by simp
  have nolater: "\<forall>j<length ?vals. 2 < j \<longrightarrow> fst (?metas ! j) \<noteq> fst (?metas ! 2)"
    by auto
  from r1 two nolater
  have "original ret (fst (?metas ! 2)) = Some (?vals ! 2) \<and>
        (\<exists>t. apply_transform (snd (?metas ! 2)) (?vals ! 2) = Inr t \<and>
             transformed ret (fst (?metas ! 2)) = Some t)"
    by blast
  then have "original ret ''a'' = Some (JBig 7) \<and> transformed ret ''a'' = Some (JBig 14)"
    by (simp add: metas apply_transform_def double_def)
  with agg out dec metas show ?thesis by simp
qed

subsection \<open>Boolean coercion\<close>

lemma coerce_enumerate:
  "map_result (\<lambda>p. coerceField types (fst p) (snd p)) (enumerate n rs) =
     (if \<forall>i<length rs. declared_bool types (n + i) \<longrightarrow> rs ! i \<noteq> JUndefined \<and> rs ! i \<noteq> JNull
      then Inr (map (\<lambda>p. if declared_bool types (fst p)
                          then JBool (js_toString (snd p) = Inr ''true'') else snd p)
                    (enumerate n rs))
      else Inl TypeError)"
proof (induction rs arbitrary: n)
  case Nil
  show ?case by simp
next
  case (Cons r rs)
  have head: "coerceField types n r =
      (if declared_bool types n \<longrightarrow> r \<noteq> JUndefined \<and> r \<noteq> JNull
       then Inr (if declared_bool types n then JBool (js_toString r = Inr ''true'') else r)
       else Inl TypeError)"
    by (simp add: coerceField_cases declared_bool_def)
  show ?case
    by (auto simp: head Cons.IH [of "Suc n"] All_less_Suc2)
qed

lemma coerceFields_eq:
  "coerceFields types rs =
     (if \<forall>i<length rs. declared_bool types i \<longrightarrow> rs ! i \<noteq> JUndefined \<and> rs ! i \<noteq> JNull
      then Inr (spec_coerce types rs) else Inl TypeError)"
  using coerce_enumerate [of types 0 rs] by (simp add: coerceFields_def spec_coerce_def)

lemma spec_coerce_nth:
  "length (spec_coerce types rs) = length rs \<and>
   (\<forall>i<length rs. spec_coerce types rs ! i =
      (if declared_bool types i then JBool (js_toString (rs ! i) = Inr ''true'') else rs ! i))"
  by (simp add: spec_coerce_def nth_enumerate_eq)

lemma forEachResult_eq:
  assumes "idx + length items \<le> length ds" and "length rss = length items"
    and "\<forall>k<length items. decodeParameters E (returnTypes (ds ! (idx + k))) (items ! k) = Inr (rss ! k)"
  shows "forEachResult E ds idx items acc =
     (if \<forall>k<length items. \<forall>i<length (rss ! k).
           declared_bool (returnTypes (ds ! (idx + k))) i \<longrightarrow>
             rss ! k ! i \<noteq> JUndefined \<and> rss ! k ! i \<noteq> JNull
      then Inr (acc @ concat (map2 spec_coerce (map returnTypes (drop idx ds)) rss))
      else Inl TypeError)"
  using assms
proof (induction items arbitrary: idx acc rss)
  case Nil
  then show ?case by simp
next
  case (Cons item items)
  from Cons.prems(2) obtain rs rss' where rss: "rss = rs # rss'" and len': "length rss' = length items"
    by (cases rss) auto
  from Cons.prems(1) have idx: "idx < length ds" and room: "Suc idx + length items \<le> length ds"
    by auto
  from Cons.prems(3) rss have first: "decodeParameters E (returnTypes (ds ! idx)) item = Inr rs"
    by auto
  from Cons.prems(3) rss
  have rest: "\<forall>k<length items. decodeParameters E (returnTypes (ds ! (Suc idx + k))) (items ! k) = Inr (rss' ! k)"
    by auto
  have step: "decodeCallResult E ds idx item =
      (if \<forall>i<length rs. declared_bool (returnTypes (ds ! idx)) i \<longrightarrow> rs ! i \<noteq> JUndefined \<and> rs ! i \<noteq> JNull
       then Inr (spec_coerce (returnTypes (ds ! idx)) rs) else Inl TypeError)"
    using idx first by (simp add: decodeCallResult_def coerceFields_eq Let_def)
  have dr: "drop idx ds = ds ! idx # drop (Suc idx) ds"
    using idx by (simp add: Cons_nth_drop_Suc)
  show ?case
    using Cons.IH [OF room len' rest]
    by (auto simp: step rss dr All_less_Suc2)
qed

lemma decodeOuter_eq:
  assumes outer: "decodeParameters E [''uint256'', ''bytes[]''] (JStr outer) = Inr [bn, JArr blobs]"
    and calls: "length blobs \<le> length ds"
    and len: "length rss = length blobs"
    and fields: "\<forall>k<length blobs. decodeParameters E (returnTypes (ds ! k)) (blobs ! k) = Inr (rss ! k)"
  shows "decodeOuter E ds outer =
     (if \<forall>k<length blobs. \<forall>i<length (rss ! k).
           declared_bool (returnTypes (ds ! k)) i \<longrightarrow> rss ! k ! i \<noteq> JUndefined \<and> rss ! k ! i \<noteq> JNull
      then Inr (bn, coerced_values ds rss) else Inl TypeError)"
proof -
  from calls have room: "0 + length blobs \<le> length ds" by simp
  from fields have fields': "\<forall>k<length blobs. decodeParameters E (returnTypes (ds ! (0 + k))) (blobs ! k) = Inr (rss ! k)"
    by simp
  from forEachResult_eq [OF room len fields', of "[]"] outer show ?thesis
    by (simp add: decodeOuter_def coerced_values_def Let_def)
qed

lemma concat_nth_piece:
  assumes "k < length xss" and "i < length (xss ! k)"
  shows "length (concat (take k xss)) + i < length (concat xss) \<and>
         concat xss ! (length (concat (take k xss)) + i) = xss ! k ! i"
proof -
  from assms(1) have "xss = take k xss @ xss ! k # drop (Suc k) xss"
    by (rule id_take_nth_drop)
  then have "concat xss = concat (take k xss) @ xss ! k @ concat (drop (Suc k) xss)"
    by (metis concat.simps(2) concat_append)
  with assms(2) show ?thesis
    by (simp add: nth_append)
qed

lemma length_concat_take:
  assumes "map length xss = map length yss"
  shows "length (concat (take k xss)) = length (concat (take k yss))"
proof -
  have "map length (take k xss) = map length (take k yss)"
    using assms by (simp add: take_map [symmetric])
  then show ?thesis by (simp add: length_concat)
qed

lemma coerced_values_nth:
  assumes calls: "length rss \<le> length ds" and k: "k < length rss" and i: "i < length (rss ! k)"
  shows "flat_index rss k i < length (coerced_values ds rss) \<and>
         coerced_values ds rss ! flat_index rss k i =
           (if declared_bool (returnTypes (ds ! k)) i
            then JBool (js_toString (rss ! k ! i) = Inr ''true'') else rss ! k ! i)"
proof -
  let ?xss = "map2 spec_coerce (map returnTypes ds) rss"
  from calls have lx: "length ?xss = length rss" by simp
  have piece: "?xss ! j = spec_coerce (returnTypes (ds ! j)) (rss ! j)" if "j < length rss" for j
    using that calls by simp
  have "map length ?xss = map length rss"
    using lx piece by (auto simp: list_eq_iff_nth_eq spec_coerce_nth)
  then have pos: "length (concat (take k ?xss)) = length (concat (take k rss))"
    by (rule length_concat_take)
  from k lx have k': "k < length ?xss" by simp
  from i piece [OF k] have i': "i < length (?xss ! k)" by (simp add: spec_coerce_nth)
  from concat_nth_piece [OF k' i'] pos piece [OF k] i show ?thesis
    by (simp add: flat_index_def coerced_values_def spec_coerce_nth)
qed

lemma mapResults_blockNumber:
  "mapResults metas vals ret0 = Inr ret \<Longrightarrow> blockNumber ret = blockNumber ret0"
proof (induction metas vals ret0 rule: mapResults.induct)
  case (3 m metas v vs ret0)
  from "3.prems" obtain t where t: "apply_transform (snd m) v = Inr t"
    and run: "mapResults metas vs
        (ret0\<lparr>original := (original ret0)(fst m \<mapsto> v), transformed := (transformed ret0)(fst m \<mapsto> t)\<rparr>) = Inr ret"
    by (auto simp: Let_def split: sum.splits)
  from "3.IH" [OF refl refl t] run show ?case by (simp add: Let_def)
qed simp_all

lemma decodeAndMap_Inr:
  assumes "decodeAndMap E ds outer = Inr ret"
  shows "\<exists>number vals. decodeOuter E ds outer = Inr (number, vals) \<and>
           mapResults (concat (map d_returns ds)) vals
             \<lparr>blockNumber = number, original = Map.empty, transformed = Map.empty\<rparr> = Inr ret"
  using assms by (auto simp: decodeAndMap_def Let_def split: sum.splits)

text \<open>
  Claim C3. For every decoded return field whose declared type is \<open>bool\<close>, the value
  stored for it is true if and only if the string form of the decoded value is exactly
  \<open>true\<close>; any other decoded value (a native \<open>false\<close> included) yields false; fields
  of every other declared type are passed through unchanged.

  The response decodes to the block number \<open>bn\<close> and one blob per call, and \<open>rss ! k\<close>
  are the fields the codec decodes from the blob of call \<open>k\<close>. The only decoded values
  without a string form are \<open>null\<close> and \<open>undefined\<close>: when no boolean field holds one of
  them, \<open>parsedVals\<close> is the flat sequence of the fields coerced as the claim says, and
  otherwise decoding is a TypeError. Field \<open>i\<close> of call \<open>k\<close> stands at position
  \<open>flat_index rss k i\<close> of that sequence. In every result of the decode-and-map step,
  and so of aggregate, the entry of \<open>original\<close> under the key of a position that is the
  last one of its key is the coerced value of that position, and the entry of
  \<open>transformed\<close> is its transform.
\<close>

theorem bool_coercion:
  assumes outer: "decodeParameters E [''uint256'', ''bytes[]''] (JStr outer) = Inr [bn, JArr blobs]"
    and calls: "length blobs \<le> length ds"
    and len: "length rss = length blobs"
    and fields: "\<forall>k<length blobs. decodeParameters E (returnTypes (ds ! k)) (blobs ! k) = Inr (rss ! k)"
  shows "decodeOuter E ds outer =
           (if \<forall>k<length blobs. \<forall>i<length (rss ! k).
                 declared_bool (returnTypes (ds ! k)) i \<longrightarrow>
                   rss ! k ! i \<noteq> JUndefined \<and> rss ! k ! i \<noteq> JNull
            then Inr (bn, coerced_values ds rss) else Inl TypeError) \<and>
         (\<forall>k<length blobs. \<forall>i<length (rss ! k).
            flat_index rss k i < length (coerced_values ds rss) \<and>
            coerced_values ds rss ! flat_index rss k i =
              (if declared_bool (returnTypes (ds ! k)) i
               then JBool (js_toString (rss ! k ! i) = Inr ''true'') else rss ! k ! i)) \<and>
         (\<forall>ret. decodeAndMap E ds outer = Inr ret \<longrightarrow>
            blockNumber ret = bn \<and>
            (\<forall>p<length (coerced_values ds rss).
               (\<forall>q<length (coerced_values ds rss). p < q \<longrightarrow>
                   fst (concat (map d_returns ds) ! q) \<noteq> fst (concat (map d_returns ds) ! p)) \<longrightarrow>
               original ret (fst (concat (map d_returns ds) ! p)) = Some (coerced_values ds rss ! p) \<and>
               (\<exists>t. apply_transform (snd (concat (map d_returns ds) ! p)) (coerced_values ds rss ! p) = Inr t \<and>
                    transformed ret (fst (concat (map d_returns ds) ! p)) = Some t))) \<and>
         (\<forall>config w input blob w1 out w'.
            map_result (normalizeCall E config) (as_array input) = Inr ds \<and>
            makeMulticallData E descriptor_view w ds False = (Inr blob, w1) \<and>
            ethCall E blob config = Inr outer \<and>
            aggregate E config w input = (Inr out, w') \<longrightarrow>
            decodeAndMap E ds outer = Inr (results out) \<and>
            concat (map d_returns ds) = concat (map returns (as_array input)))"
proof -
  let ?V = "coerced_values ds rss"
  let ?metas = "concat (map d_returns ds)"
  note dec = decodeOuter_eq [OF outer calls len fields]
  have pos: "flat_index rss k i < length ?V \<and>
        ?V ! flat_index rss k i =
          (if declared_bool (returnTypes (ds ! k)) i
           then JBool (js_toString (rss ! k ! i) = Inr ''true'') else rss ! k ! i)"
    if "k < length blobs" "i < length (rss ! k)" for k i
    using coerced_values_nth [of rss ds k i] that calls len by simp
  have stored: "blockNumber ret = bn \<and>
        (\<forall>p<length ?V.
           (\<forall>q<length ?V. p < q \<longrightarrow> fst (?metas ! q) \<noteq> fst (?metas ! p)) \<longrightarrow>
           original ret (fst (?metas ! p)) = Some (?V ! p) \<and>
           (\<exists>t. apply_transform (snd (?metas ! p)) (?V ! p) = Inr t \<and>
                transformed ret (fst (?metas ! p)) = Some t))"
    if run: "decodeAndMap E ds outer = Inr ret" for ret
  proof -
    from decodeAndMap_Inr [OF run] obtain number vals where
      d: "decodeOuter E ds outer = Inr (number, vals)"
      and m: "mapResults ?metas vals
                \<lparr>blockNumber = number, original = Map.empty, transformed = Map.empty\<rparr> = Inr ret"
      by blast
    from d dec have nv: "number = bn" "vals = ?V"
      by (auto split: if_splits)
    from mapResults_blockNumber [OF m] nv(1) have bn: "blockNumber ret = bn"
      by simp
    have "original ret (fst (?metas ! p)) = Some (?V ! p) \<and>
          (\<exists>t. apply_transform (snd (?metas ! p)) (?V ! p) = Inr t \<and>
               transformed ret (fst (?metas ! p)) = Some t)"
      if "p < length ?V" "\<forall>q<length ?V. p < q \<longrightarrow> fst (?metas ! q) \<noteq> fst (?metas ! p)" for p
      using mapResults_last [OF m [unfolded nv] that] .
    with bn show ?thesis by blast
  qed
  have agg: "decodeAndMap E ds outer = Inr (results out) \<and>
        ?metas = concat (map returns (as_array input))"
    if "map_result (normalizeCall E config) (as_array input) = Inr ds"
      "makeMulticallData E descriptor_view w ds False = (Inr blob, w1)"
      "ethCall E blob config = Inr outer"
      "aggregate E config w input = (Inr out, w')" for config w input blob w1 out w'
    using aggregate_run [OF that(1,2,3)] that(4) normalized_returns [OF that(1)]
    by (auto split: sum.splits)
  from dec pos stored agg show ?thesis by blast
qed

text \<open>
  A call declaring \<open>(bool, uint256, bool, bool)\<close> whose decoded fields are a native
  \<open>false\<close>, the number 5, a native \<open>true\<close> and the string \<open>True\<close>: the last one is a
  boolean-like value whose text is not exactly \<open>true\<close>, and aggregate stores false for
  it; the number is stored as it is.
\<close>

theorem bool_coercion_witness:
  "decodeParameters (stub_env ''0xa4'') (returnTypes ([flags_descriptor] ! 0)) (JStr ''0xb4'')
     = Inr [JBool False, JBig 5, JBool True, JStr ''True''] \<and>
   decodeOuter (stub_env ''0xa4'') [flags_descriptor] ''0xa4''
     = Inr (JBig 100, [JBool False, JBig 5, JBool True, JBool False]) \<and>
   original (results (projr (fst (aggregate (stub_env ''0xa4'') config0 world0 (One flags_call))))) ''f3''
     = Some (JBool False) \<and>
   transformed (results (projr (fst (aggregate (stub_env ''0xa4'') config0 world0 (One flags_call))))) ''f3''
     = Some (JBool False) \<and>
   original (results (projr (fst (aggregate (stub_env ''0xa4'') config0 world0 (One flags_call))))) ''n''
     = Some (JBig 5)"
proof -
  let ?E = "stub_env ''0xa4''"
  let ?ds = "[flags_descriptor]"
  let ?rss = "[[JBool False, JBig 5, JBool True, JStr ''True'']]"
  let ?V = "coerced_values ?ds ?rss"
  let ?metas = "concat (map d_returns ?ds)"
  have outer: "decodeParameters ?E [''uint256'', ''bytes[]''] (JStr ''0xa4'') = Inr [JBig 100, JArr [JStr ''0xb4'']]"
    by code_simp
  have calls: "length [JStr ''0xb4''] \<le> length ?ds" by simp
  have len: "length ?rss = length [JStr ''0xb4'']" by simp
  have field: "decodeParameters ?E (returnTypes (?ds ! 0)) (JStr ''0xb4'')
                 = Inr [JBool False, JBig 5, JBool True, JStr ''True'']"
    by code_simp
  then have fields: "\<forall>k<length [JStr ''0xb4''].
      decodeParameters ?E (returnTypes (?ds ! k)) ([JStr ''0xb4''] ! k) = Inr (?rss ! k)"
    by simp
  have texts: "\<forall>k<length [JStr ''0xb4'']. \<forall>i<length (?rss ! k).
      declared_bool (returnTypes (?ds ! k)) i \<longrightarrow> ?rss ! k ! i \<noteq> JUndefined \<and> ?rss ! k ! i \<noteq> JNull"
    by (simp add: less_Suc_eq numeral_eq_Suc)
  have V: "?V = [JBool False, JBig 5, JBool True, JBool False]"
    by code_simp
  have keys: "d_returns flags_descriptor = [(''f1'', None), (''n'', None), (''f2'', None), (''f3'', None)]"
    by (simp add: flags_descriptor_def)
  have norm: "map_result (normalizeCall ?E config0) (as_array (One flags_call)) = Inr ?ds"
    by (simp add: flags_call_def flags_descriptor_def config0_def normalize_eval)
  obtain blob w1 where build: "makeMulticallData ?E descriptor_view world0 ?ds False = (Inr blob, w1)"
  proof -
    have "\<not> isl (fst (makeMulticallData ?E descriptor_view world0 ?ds False))"
      by code_simp
    then show ?thesis
      using that by (cases "makeMulticallData ?E descriptor_view world0 ?ds False")
        (metis fst_conv sum.collapse(2))
  qed
  have eth: "ethCall ?E blob config0 = Inr ''0xa4''"
    by (simp add: stub_env_def)
  obtain out w' where agg: "aggregate ?E config0 world0 (One flags_call) = (Inr out, w')"
  proof -
    have "\<not> isl (fst (aggregate ?E config0 world0 (One flags_call)))"
      by code_simp
    then show ?thesis
      using that by (cases "aggregate ?E config0 world0 (One flags_call)")
        (metis fst_conv sum.collapse(2))
  qed
  note claim = bool_coercion [OF outer calls len fields]
  from claim texts V have dec: "decodeOuter ?E ?ds ''0xa4'' = Inr (JBig 100, [JBool False, JBig 5, JBool True, JBool False])"
    by simp
  from claim norm build eth agg have run: "decodeAndMap ?E ?ds ''0xa4'' = Inr (results out)"
    by blast
  from claim run
  have stored: "\<forall>p<length ?V.
      (\<forall>q<length ?V. p < q \<longrightarrow> fst (?metas ! q) \<noteq> fst (?metas ! p)) \<longrightarrow>
      original (results out) (fst (?metas ! p)) = Some (?V ! p) \<and>
      (\<exists>t. apply_transform (snd (?metas ! p)) (?V ! p) = Inr t \<and>
           transformed (results out) (fst (?metas ! p)) = Some t)"
    by blast
  have three: "3 < length ?V" by (simp add: V)
  have last3: "\<forall>q<length ?V. 3 < q \<longrightarrow> fst (?metas ! q) \<noteq> fst (?metas ! 3)"
    by (simp add: V)
  from stored three last3
  have "original (results out) (fst (?metas ! 3)) = Some (?V ! 3) \<and>
        (\<exists>t. apply_transform (snd (?metas ! 3)) (?V ! 3) = Inr t \<and>
             transformed (results out) (fst (?metas ! 3)) = Some t)"
    by blast
  then have f3: "original (results out) ''f3'' = Some (JBool False) \<and>
                 transformed (results out) ''f3'' = Some (JBool False)"
    by (simp add: V keys apply_transform_def)
  have one: "1 < length ?V" by (simp add: V)
  have last1: "\<forall>q<length ?V. 1 < q \<longrightarrow> fst (?metas ! q) \<noteq> fst (?metas ! 1)"
    by (simp add: V keys less_Suc_eq numeral_eq_Suc)
  from stored one last1
  have "original (results out) (fst (?metas ! 1)) = Some (?V ! 1)"
    by blast
  then have n: "original (results out) ''n'' = Some (JBig 5)"
    by (simp add: V keys)
  from field dec f3 n agg show ?thesis by simp
qed

subsection \<open>The count check before decoding\<close>

text \<open>
  Claim C1, as stated: for every aggregate invocation in signature mode, if the length
  of the flat sequence of decoded result values differs from the total number of
  return-field-spec entries across all calls, aggregate fails with an error before
  writing any entry into the original or transformed mappings, and no partial
  AggregateResult is returned.

  It fails when the response carries fewer results than there are calls. The three
  calls of \<open>three_calls\<close> declare three return types and three return-field specs, so
  the count check passes; the response \<open>0xa1\<close> holds a single result, the flat decoded
  sequence has one value, and aggregate returns a result in which only \<open>a\<close> is mapped.
\<close>

theorem count_check_counterexample:
  "map_result (normalizeCall (stub_env ''0xa1'') config0) three_calls = Inr three_descriptors \<and>
   decodeOuter (stub_env ''0xa1'') three_descriptors ''0xa1'' = Inr (JBig 100, [JBig 500]) \<and>
   length [JBig 500] \<noteq> length (concat (map returns three_calls)) \<and>
   \<not> isl (fst (aggregate (stub_env ''0xa1'') config0 world0 (Many three_calls))) \<and>
   original (results (projr (fst (aggregate (stub_env ''0xa1'') config0 world0 (Many three_calls))))) ''a''
     = Some (JBig 500) \<and>
   original (results (projr (fst (aggregate (stub_env ''0xa1'') config0 world0 (Many three_calls))))) ''b''
     = None"
proof -
  have "decodeOuter (stub_env ''0xa1'') three_descriptors ''0xa1'' = Inr (JBig 100, [JBig 500]) \<and>
   length [JBig 500] \<noteq> length (concat (map returns three_calls)) \<and>
   \<not> isl (fst (aggregate (stub_env ''0xa1'') config0 world0 (Many three_calls))) \<and>
   original (results (projr (fst (aggregate (stub_env ''0xa1'') config0 world0 (Many three_calls))))) ''a''
     = Some (JBig 500) \<and>
   original (results (projr (fst (aggregate (stub_env ''0xa1'') config0 world0 (Many three_calls))))) ''b''
     = None"
    by code_simp
  with three_norm [of "stub_env ''0xa1''"] show ?thesis by simp
qed

lemma forEachResult_length:
  assumes "forEachResult E ds idx items acc = Inr acc'"
    and "\<forall>k<length items. \<forall>vs.
           decodeParameters E (returnTypes (ds ! (idx + k))) (items ! k) = Inr vs \<longrightarrow>
           length vs = length (returnTypes (ds ! (idx + k)))"
  shows "length acc' = length acc + length (concat (map returnTypes (take (length items) (drop idx ds))))"
  using assms
proof (induction items arbitrary: idx acc)
  case Nil
  then show ?case by simp
next
  case (Cons r rest)
  from Cons.prems(1) obtain vals where
    one: "decodeCallResult E ds idx r = Inr vals"
    and more: "forEachResult E ds (Suc idx) rest (acc @ vals) = Inr acc'"
    by (auto split: sum.splits)
  from one have idx: "idx < length ds"
    by (auto simp: decodeCallResult_def split: if_splits)
  from one idx obtain rs where
    rs: "decodeParameters E (returnTypes (ds ! idx)) r = Inr rs"
    and co: "coerceFields (returnTypes (ds ! idx)) rs = Inr vals"
    by (auto simp: decodeCallResult_def Let_def split: sum.splits)
  from Cons.prems(2) rs have "length rs = length (returnTypes (ds ! idx))"
    by (metis add.right_neutral length_Cons nth_Cons_0 zero_less_Suc)
  with coerceFields_Inr [OF co] have lv: "length vals = length (returnTypes (ds ! idx))"
    by simp
  have wf': "\<forall>k<length rest. \<forall>vs.
           decodeParameters E (returnTypes (ds ! (Suc idx + k))) (rest ! k) = Inr vs \<longrightarrow>
           length vs = length (returnTypes (ds ! (Suc idx + k)))"
  proof (intro allI impI)
    fix k vs
    assume k: "k < length rest"
      and d: "decodeParameters E (returnTypes (ds ! (Suc idx + k))) (rest ! k) = Inr vs"
    from k have "Suc k < length (r # rest)" by simp
    with Cons.prems(2) d show "length vs = length (returnTypes (ds ! (Suc idx + k)))"
      by (metis add_Suc add_Suc_right nth_Cons_Suc)
  qed
  from Cons.IH [OF more wf']
  have la: "length acc' = length (acc @ vals) +
        length (concat (map returnTypes (take (length rest) (drop (Suc idx) ds))))" .
  have "take (length (r # rest)) (drop idx ds) = ds ! idx # take (length rest) (drop (Suc idx) ds)"
    using idx by (simp add: Cons_nth_drop_Suc [symmetric])
  with la lv show ?case by simp
qed

lemma decodeOuter_length:
  assumes outer: "decodeParameters E [''uint256'', ''bytes[]''] (JStr outer) = Inr [bn, JArr blobs]"
    and one_each: "length blobs = length ds"
    and codec: "\<forall>i<length ds. \<forall>vs.
           decodeParameters E (returnTypes (ds ! i)) (blobs ! i) = Inr vs \<longrightarrow>
           length vs = length (returnTypes (ds ! i))"
    and dec: "decodeOuter E ds outer = Inr (bn', vals)"
  shows "length vals = length (concat (map returnTypes ds))"
proof -
  from dec outer obtain acc' where f: "forEachResult E ds 0 blobs [] = Inr acc'"
    and v: "vals = acc'"
    by (auto simp: decodeOuter_def Let_def split: sum.splits)
  from codec one_each have "\<forall>k<length blobs. \<forall>vs.
           decodeParameters E (returnTypes (ds ! (0 + k))) (blobs ! k) = Inr vs \<longrightarrow>
           length vs = length (returnTypes (ds ! (0 + k)))"
    by simp
  from forEachResult_length [OF f this] one_each v show ?thesis by simp
qed

text \<open>
  Claim C1, amended. What aggregate compares with the number of return-field specs is
  the total number of declared return types, and it does so after the remote call and
  before decoding: whenever the two totals differ aggregate returns no result, and
  once the envelope is built and the remote call has answered the error is the
  invariant error of the count check, whatever the response decodes to.

  The claim as stated holds for responses that carry one result per call, each decoded
  to one value per declared return type: there the flat decoded sequence is as long as
  the declared return types are many, and a length that differs from the number of
  return-field specs means the count check has failed.
\<close>

theorem count_check:
  assumes norm: "map_result (normalizeCall E config) (as_array input) = Inr ds"
  shows "(length (concat (map returnTypes ds)) \<noteq> length (concat (map d_returns ds)) \<longrightarrow>
            (\<exists>e w'. aggregate E config w input = (Inl e, w')) \<and>
            (\<forall>blob w1 outer.
               makeMulticallData E descriptor_view w ds False = (Inr blob, w1) \<and>
               ethCall E blob config = Inr outer \<longrightarrow>
               aggregate E config w input =
                 (Inl (InvariantViolation ''Missing data needed to parse results''),
                  w1\<lparr>eth_calls := eth_calls w1 @ [blob]\<rparr>))) \<and>
         (\<forall>blob w1 outer bn blobs bn' vals.
            makeMulticallData E descriptor_view w ds False = (Inr blob, w1) \<and>
            ethCall E blob config = Inr outer \<and>
            decodeParameters E [''uint256'', ''bytes[]''] (JStr outer) = Inr [bn, JArr blobs] \<and>
            length blobs = length ds \<and>
            (\<forall>i<length ds. \<forall>vs.
               decodeParameters E (returnTypes (ds ! i)) (blobs ! i) = Inr vs \<longrightarrow>
               length vs = length (returnTypes (ds ! i))) \<and>
            decodeOuter E ds outer = Inr (bn', vals) \<and>
            length vals \<noteq> length (concat (map d_returns ds)) \<longrightarrow>
            aggregate E config w input =
              (Inl (InvariantViolation ''Missing data needed to parse results''),
               w1\<lparr>eth_calls := eth_calls w1 @ [blob]\<rparr>))"
proof -
  have check: "decodeAndMap E ds outer = Inl (InvariantViolation ''Missing data needed to parse results'')"
    if "length (concat (map returnTypes ds)) \<noteq> length (concat (map d_returns ds))" for outer
    using that by (simp add: decodeAndMap_def invariant_def Let_def)
  have fails: "\<exists>e w'. aggregate E config w input = (Inl e, w')"
    if "length (concat (map returnTypes ds)) \<noteq> length (concat (map d_returns ds))"
    using norm check [OF that]
    by (auto simp: aggregate_def Let_def split: sum.splits prod.splits)
  have thrown: "aggregate E config w input =
        (Inl (InvariantViolation ''Missing data needed to parse results''),
         w1\<lparr>eth_calls := eth_calls w1 @ [blob]\<rparr>)"
    if "length (concat (map returnTypes ds)) \<noteq> length (concat (map d_returns ds))"
      "makeMulticallData E descriptor_view w ds False = (Inr blob, w1)"
      "ethCall E blob config = Inr outer" for blob w1 outer
    using aggregate_run [OF norm that(2,3)] check [OF that(1)] by simp
  have decoded: "aggregate E config w input =
        (Inl (InvariantViolation ''Missing data needed to parse results''),
         w1\<lparr>eth_calls := eth_calls w1 @ [blob]\<rparr>)"
    if "makeMulticallData E descriptor_view w ds False = (Inr blob, w1)"
      "ethCall E blob config = Inr outer"
      "decodeParameters E [''uint256'', ''bytes[]''] (JStr outer) = Inr [bn, JArr blobs]"
      "length blobs = length ds"
      "\<forall>i<length ds. \<forall>vs.
         decodeParameters E (returnTypes (ds ! i)) (blobs ! i) = Inr vs \<longrightarrow>
         length vs = length (returnTypes (ds ! i))"
      "decodeOuter E ds outer = Inr (bn', vals)"
      "length vals \<noteq> length (concat (map d_returns ds))"
    for blob w1 outer bn blobs bn' vals
  proof -
    from decodeOuter_length [OF that(3,4,5,6)] that(7)
    have "length (concat (map returnTypes ds)) \<noteq> length (concat (map d_returns ds))"
      by simp
    from thrown [OF this that(1,2)] show ?thesis .
  qed
  from fails thrown decoded show ?thesis by blast
qed

text \<open>
  A call declaring two return types with a single return-field spec, answered by a
  response with one result: its two decoded values outnumber the one spec.
\<close>

theorem count_check_witness:
  "map_result (normalizeCall (stub_env ''0xa1'') config0) (as_array (One pair_call)) = Inr [pair_descriptor] \<and>
   decodeOuter (stub_env ''0xa1'') [pair_descriptor] ''0xa1'' = Inr (JBig 100, [JBig 500, JBig 500]) \<and>
   length [JBig 500, JBig 500] \<noteq> length (concat (map d_returns [pair_descriptor])) \<and>
   fst (aggregate (stub_env ''0xa1'') config0 world0 (One pair_call))
     = Inl (InvariantViolation ''Missing data needed to parse results'')"
proof -
  let ?E = "stub_env ''0xa1''"
  have norm: "map_result (normalizeCall ?E config0) (as_array (One pair_call)) = Inr [pair_descriptor]"
    by (simp add: pair_call_def pair_descriptor_def config0_def normalize_eval)
  obtain blob w1 where build: "makeMulticallData ?E descriptor_view world0 [pair_descriptor] False = (Inr blob, w1)"
  proof -
    have "\<not> isl (fst (makeMulticallData ?E descriptor_view world0 [pair_descriptor] False))"
      by code_simp
    then show ?thesis
      using that by (cases "makeMulticallData ?E descriptor_view world0 [pair_descriptor] False")
        (metis fst_conv sum.collapse(2))
  qed
  have eth: "ethCall ?E blob config0 = Inr ''0xa1''"
    by (simp add: stub_env_def)
  have outer: "decodeParameters ?E [''uint256'', ''bytes[]''] (JStr ''0xa1'') = Inr [JBig 100, JArr [JStr ''0x01f4'']]"
    by code_simp
  have one_each: "length [JStr ''0x01f4''] = length [pair_descriptor]"
    by simp
  have inner: "decodeParameters ?E (returnTypes ([pair_descriptor] ! 0)) ([JStr ''0x01f4''] ! 0)
      = Inr [JBig 500, JBig 500]"
    by code_simp
  have types: "length (returnTypes ([pair_descriptor] ! 0)) = 2"
    by (simp add: pair_descriptor_def)
  have codec: "\<forall>i<length [pair_descriptor]. \<forall>vs.
      decodeParameters ?E (returnTypes ([pair_descriptor] ! i)) ([JStr ''0x01f4''] ! i) = Inr vs \<longrightarrow>
      length vs = length (returnTypes ([pair_descriptor] ! i))"
    using inner types by auto
  have dec: "decodeOuter ?E [pair_descriptor] ''0xa1'' = Inr (JBig 100, [JBig 500, JBig 500])"
    by code_simp
  have diff: "length [JBig 500, JBig 500] \<noteq> length (concat (map d_returns [pair_descriptor]))"
    by (simp add: pair_descriptor_def)
  from count_check [OF norm, of world0] build eth outer one_each codec dec diff
  have "aggregate ?E config0 world0 (One pair_call) =
          (Inl (InvariantViolation ''Missing data needed to parse results''),
           w1\<lparr>eth_calls := eth_calls w1 @ [blob]\<rparr>)"
    by blast
  with norm dec diff show ?thesis by simp
qed

subsection \<open>The call normaliser\<close>

lemma lazy_group_Some:
  "lazy_group cs = Some (body, rest) \<Longrightarrow>
     cs = body @ CHR '')'' # rest \<and> CHR '')'' \<notin> set body \<and> (\<forall>ch\<in>set body. \<not> line_terminator ch)"
  by (induction cs arbitrary: body) (auto split: if_splits option.splits)

lemma lazy_group_exact:
  "CHR '')'' \<notin> set a \<Longrightarrow> (\<forall>ch\<in>set a. \<not> line_terminator ch) \<Longrightarrow>
     lazy_group (a @ CHR '')'' # rest) = Some (a, rest)"
  by (induction a) auto

lemma lazy_group_complete:
  "(\<forall>ch\<in>set b. \<not> line_terminator ch) \<Longrightarrow> lazy_group (b @ CHR '')'' # q) \<noteq> None"
  by (induction b) auto

lemma scan_groups_skip:
  "CHR ''('' \<notin> set name \<Longrightarrow> scan_groups (name @ xs) = scan_groups xs"
  by (induction name) auto

lemma scan_groups_found:
  "(\<forall>ch\<in>set b. \<not> line_terminator ch) \<Longrightarrow> scan_groups (p @ CHR ''('' # b @ CHR '')'' # q) \<noteq> []"
proof (induction p)
  case Nil
  with lazy_group_complete [of b q] show ?case by (auto split: option.splits)
next
  case (Cons c p)
  then show ?case by (auto split: option.splits)
qed

lemma parenthesised_group_Cons:
  assumes "parenthesised_group cs"
  shows "parenthesised_group (c # cs)"
proof -
  from assms obtain p b q where "cs = p @ ''('' @ b @ '')'' @ q" "\<forall>ch\<in>set b. \<not> line_terminator ch"
    unfolding parenthesised_group_def by blast
  then have "c # cs = (c # p) @ ''('' @ b @ '')'' @ q \<and> (\<forall>ch\<in>set b. \<not> line_terminator ch)"
    by simp
  then show ?thesis
    unfolding parenthesised_group_def by blast
qed

lemma scan_groups_sound:
  "scan_groups s \<noteq> [] \<Longrightarrow> parenthesised_group s"
proof (induction s rule: scan_groups.induct)
  case 1
  then show ?case by simp
next
  case (2 c cs)
  show ?case
  proof (cases "c = CHR ''(''")
    case True
    show ?thesis
    proof (cases "lazy_group cs")
      case None
      with True "2.prems" have "scan_groups cs \<noteq> []" by simp
      with "2.IH"(1) [OF True None] show ?thesis
        by (simp add: parenthesised_group_Cons)
    next
      case (Some br)
      obtain body rest where br: "br = (body, rest)" by (cases br)
      from lazy_group_Some [OF Some [unfolded br]] True
      have "c # cs = [] @ ''('' @ body @ '')'' @ rest \<and> (\<forall>ch\<in>set body. \<not> line_terminator ch)"
        by simp
      then show ?thesis
        unfolding parenthesised_group_def by blast
    qed
  next
    case False
    with "2.prems" have "scan_groups cs \<noteq> []" by simp
    with "2.IH"(3) [OF False] show ?thesis
      by (simp add: parenthesised_group_Cons)
  qed
qed

lemma INSIDE_EVERY_PARENTHESES_None_iff:
  "INSIDE_EVERY_PARENTHESES s = None \<longleftrightarrow> \<not> parenthesised_group s"
proof
  assume "INSIDE_EVERY_PARENTHESES s = None"
  then have empty: "scan_groups s = []"
    by (simp add: INSIDE_EVERY_PARENTHESES_def split: list.splits)
  show "\<not> parenthesised_group s"
  proof
    assume "parenthesised_group s"
    then obtain p b q where "s = p @ ''('' @ b @ '')'' @ q" "\<forall>ch\<in>set b. \<not> line_terminator ch"
      unfolding parenthesised_group_def by blast
    with scan_groups_found [of b p q] empty show False by simp
  qed
next
  assume "\<not> parenthesised_group s"
  with scan_groups_sound [of s] show "INSIDE_EVERY_PARENTHESES s = None"
    by (auto simp: INSIDE_EVERY_PARENTHESES_def split: list.splits)
qed

lemma no_parenthesis_no_group:
  "CHR ''('' \<notin> set s \<Longrightarrow> \<not> parenthesised_group s"
  by (auto simp: parenthesised_group_def)

lemma aggregate_normalise_fails:
  assumes pre: "map_result (normalizeCall E config) pre = Inr ds"
    and c: "normalizeCall E config c = Inl e"
  shows "aggregate E config w (Many (pre @ c # post)) = (Inl e, w)"
  using assms by (simp add: aggregate_def map_result_append Let_def)

lemma map_result_member_fails:
  "x \<in> set xs \<Longrightarrow> f x = Inl e \<Longrightarrow> \<exists>e'. map_result f xs = Inl e'"
  by (induction xs) (auto split: sum.splits)

lemma aggregate_member_fails:
  assumes "c \<in> set cs" and "normalizeCall E config c = Inl e"
  shows "\<exists>e'. aggregate E config w (Many cs) = (Inl e', w)"
  using map_result_member_fails [where f = "normalizeCall E config", OF assms] by (auto simp: aggregate_def Let_def)

lemma sublist_middle: "sublist xs (ps @ xs @ ss)"
  unfolding sublist_def by blast

lemma balance_norm:
  "map_result (normalizeCall E config0) [balance_call] =
     Inr [\<lparr>d_method = ''balanceOf(address)'', args = [(JStr ''0x0abc'', ''address'')],
           d_target = ''0x00c1'', returnTypes = [''uint256''], d_returns = [(''bal'', None)]\<rparr>]"
  by (simp add: balance_call_def config0_def normalize_eval)

lemma split_comma_nonempty: "split_comma s \<noteq> []"
  by (induction s) (auto split: list.splits)

lemma join_comma_Cons_char:
  "join_comma ((c # w) # ws) = c # join_comma (w # ws)"
  by (cases ws) auto

lemma join_split_comma: "join_comma (split_comma s) = s"
proof (induction s)
  case Nil
  show ?case by simp
next
  case (Cons c cs)
  obtain w ws where sp: "split_comma cs = w # ws"
    using split_comma_nonempty [of cs] by (cases "split_comma cs") auto
  with Cons show ?case
    by (auto simp: join_comma_Cons_char)
qed

lemma join_resolved:
  assumes "[] \<notin> set (split_comma a) \<or> a = []"
  shows "join_comma (resolve_argTypes a) = a"
proof (cases "a = []")
  case True
  then show ?thesis by (simp add: resolve_argTypes_def)
next
  case False
  with assms have "filter (\<lambda>e. e \<noteq> []) (split_comma a) = split_comma a"
    by (auto simp: filter_id_conv)
  then show ?thesis by (simp add: resolve_argTypes_def join_split_comma)
qed

lemma takeWhile_first_closing:
  "CHR '')'' \<notin> set xs \<Longrightarrow> takeWhile (\<lambda>c. c \<noteq> CHR '')'') (xs @ CHR '')'' # rest) = xs"
  by (induction xs) auto

lemma signature_shape:
  assumes shape: "s = name @ ''('' @ a @ '')'' @ rest"
    and name: "CHR ''('' \<notin> set name" "CHR '')'' \<notin> set name"
    and a: "CHR '')'' \<notin> set a" "\<forall>ch\<in>set a. \<not> line_terminator ch"
  shows "(\<exists>r. signature_groups s = Inr (a, r)) \<and>
         FIRST_CLOSING_PARENTHESES s = Some (name @ ''('' @ a @ '')'')"
proof -
  have "scan_groups s = (CHR ''('' # a @ '')'') # scan_groups rest"
    using shape name(1) lazy_group_exact [OF a, of rest]
    by (simp add: scan_groups_skip)
  then have "\<exists>r. signature_groups s = Inr (a, r)"
    by (simp add: signature_groups_def INSIDE_EVERY_PARENTHESES_def slice_1_m1_def butlast_append)
  moreover have "takeWhile (\<lambda>c. c \<noteq> CHR '')'') s = name @ ''('' @ a"
    using shape name(2) a(1) takeWhile_first_closing [of "name @ ''('' @ a" rest]
    by simp
  then have "FIRST_CLOSING_PARENTHESES s = Some (name @ ''('' @ a @ '')'')"
    using shape by (simp add: FIRST_CLOSING_PARENTHESES_def)
  ultimately show ?thesis by blast
qed

lemma callData_prefix:
  "callData E d = Inr cd \<Longrightarrow> prefix (take 10 (keccak256 E (toUtf8Bytes E (d_method d)))) cd"
  by (auto simp: callData_def Let_def split: if_splits sum.splits)

text \<open>
  Claim C9. For every signature-mode call whose signature string contains no
  parenthesized group at all, aggregate throws a raw runtime error (from matching the
  parentheses regex yielding null) before the network call is made, rather than the
  documented MalformedCallArguments invariant error.

  The error is the TypeError of \<open>null.map\<close>. When the calls before it normalise it is
  what aggregate throws; in every call list that contains such a call aggregate fails.
  The world comes back unchanged: nothing was encoded and nothing was sent.
\<close>

theorem no_group_type_error:
  assumes nogroup: "\<not> parenthesised_group (fst (call c))"
  shows "normalizeCall E config c = Inl TypeError \<and>
         aggregate E config w (One c) = (Inl TypeError, w) \<and>
         (\<forall>pre ds post. map_result (normalizeCall E config) pre = Inr ds \<longrightarrow>
            aggregate E config w (Many (pre @ c # post)) = (Inl TypeError, w)) \<and>
         (\<forall>cs. c \<in> set cs \<longrightarrow> (\<exists>e. aggregate E config w (Many cs) = (Inl e, w)))"
proof -
  from nogroup have "INSIDE_EVERY_PARENTHESES (fst (call c)) = None"
    by (simp add: INSIDE_EVERY_PARENTHESES_None_iff)
  then have fail: "normalizeCall E config c = Inl TypeError"
    by (simp add: normalizeCall_def signature_groups_def Let_def)
  then have one: "aggregate E config w (One c) = (Inl TypeError, w)"
    by (simp add: aggregate_def Let_def)
  from fail have "aggregate E config w (Many (pre @ c # post)) = (Inl TypeError, w)"
    if "map_result (normalizeCall E config) pre = Inr ds" for pre ds post
    using aggregate_normalise_fails [OF that] by simp
  moreover from fail have "\<exists>e. aggregate E config w (Many cs) = (Inl e, w)" if "c \<in> set cs" for cs
    using aggregate_member_fails [OF that] by simp
  ultimately show ?thesis using fail one by blast
qed


text \<open>The call with the signature \<open>totalSupply\<close>, after three well-formed calls.\<close>

theorem no_group_type_error_witness:
  "\<not> parenthesised_group (fst (call bare_call)) \<and>
   aggregate (stub_env ''0xa3'') config0 world0 (Many (three_calls @ bare_call # [balance_call]))
     = (Inl TypeError, world0) \<and>
   eth_calls (snd (aggregate (stub_env ''0xa3'') config0 world0 (Many (three_calls @ bare_call # [balance_call]))))
     = []"
proof -
  have ng: "\<not> parenthesised_group (fst (call bare_call))"
    by (rule no_parenthesis_no_group) (simp add: bare_call_def)
  from no_group_type_error [OF ng, of "stub_env ''0xa3''" config0 world0] three_norm [of "stub_env ''0xa3''"]
  have "aggregate (stub_env ''0xa3'') config0 world0 (Many (three_calls @ bare_call # [balance_call]))
          = (Inl TypeError, world0)"
    by blast
  with ng show ?thesis by (simp add: world0_def)
qed

lemma format_message_plain:
  "\<not> sublist ''%s'' s \<Longrightarrow> format_message s = s"
proof (induction s rule: format_message.induct)
  case (1 a b cs)
  show ?case
  proof (cases "a = CHR ''%'' \<and> b = CHR ''s''")
    case True
    then have "sublist ''%s'' (a # b # cs)"
      by (metis append_Cons append_Nil prefix_def prefix_imp_sublist)
    with 1 show ?thesis by simp
  next
    case False
    from "1.prems" have "\<not> sublist ''%s'' (b # cs)"
      by (meson sublist_Cons_right)
    with "1.IH"(2) False show ?thesis by auto
  qed
qed simp_all

text \<open>
  What the arity check does, for a call whose signature's first parenthesised group is
  \<open>a\<close>: when the number of resolved argument types differs from the number of
  argument values, normalising the call fails with the invariant error whose message
  is the template filled with the JSON text of both lists and then passed through the
  placeholder substitution of \<open>invariant\<close>. The template holds both texts; the message
  that is thrown holds them whenever no \<open>%s\<close> occurs in the template. When the calls
  before it normalise, that error is what aggregate throws; in every call list that
  contains such a call aggregate fails. The world comes back unchanged: nothing was
  encoded and its record of remote calls has not grown.
\<close>

lemma arity_mismatch_error:
  assumes groups: "signature_groups (fst (call c)) = Inr (a, r)"
    and mismatch: "length (resolve_argTypes a) \<noteq> length (snd (call c))"
  shows "normalizeCall E config c =
           Inl (InvariantViolation (format_message (arity_message E (resolve_argTypes a) (snd (call c))))) \<and>
         sublist (JSON_stringify E (Data (JArr (map JStr (resolve_argTypes a)))))
           (arity_message E (resolve_argTypes a) (snd (call c))) \<and>
         sublist (JSON_stringify E (Data (JArr (snd (call c)))))
           (arity_message E (resolve_argTypes a) (snd (call c))) \<and>
         (\<not> sublist ''%s'' (arity_message E (resolve_argTypes a) (snd (call c))) \<longrightarrow>
            format_message (arity_message E (resolve_argTypes a) (snd (call c))) =
              arity_message E (resolve_argTypes a) (snd (call c))) \<and>
         aggregate E config w (One c) =
           (Inl (InvariantViolation (format_message (arity_message E (resolve_argTypes a) (snd (call c))))), w) \<and>
         (\<forall>pre ds post. map_result (normalizeCall E config) pre = Inr ds \<longrightarrow>
            aggregate E config w (Many (pre @ c # post)) =
              (Inl (InvariantViolation (format_message (arity_message E (resolve_argTypes a) (snd (call c))))), w)) \<and>
         (\<forall>cs. c \<in> set cs \<longrightarrow> (\<exists>e. aggregate E config w (Many cs) = (Inl e, w)))"
proof -
  let ?tpl = "arity_message E (resolve_argTypes a) (snd (call c))"
  let ?msg = "format_message ?tpl"
  from groups mismatch have fail: "normalizeCall E config c = Inl (InvariantViolation ?msg)"
    by (simp add: normalizeCall_def invariant_def Let_def)
  have types: "sublist (JSON_stringify E (Data (JArr (map JStr (resolve_argTypes a))))) ?tpl"
    unfolding arity_message_def
    using sublist_middle [of "JSON_stringify E (Data (JArr (map JStr (resolve_argTypes a))))"
        "''Every method argument must have exactly one type.'' @ [CHR 0x0A] @
           replicate 10 (CHR '' '') @ ''Comparing argument types ''"]
    by simp
  have vals: "sublist (JSON_stringify E (Data (JArr (snd (call c))))) ?tpl"
    unfolding arity_message_def
    using sublist_middle [of "JSON_stringify E (Data (JArr (snd (call c))))"
        "''Every method argument must have exactly one type.'' @ [CHR 0x0A] @
           replicate 10 (CHR '' '') @ ''Comparing argument types '' @
           JSON_stringify E (Data (JArr (map JStr (resolve_argTypes a)))) @ [CHR 0x0A] @
           replicate 10 (CHR '' '') @ ''to argument values ''"]
    by simp
  have plain: "\<not> sublist ''%s'' ?tpl \<longrightarrow> ?msg = ?tpl"
    by (simp add: format_message_plain)
  from fail have one: "aggregate E config w (One c) = (Inl (InvariantViolation ?msg), w)"
    by (simp add: aggregate_def Let_def)
  from fail have "aggregate E config w (Many (pre @ c # post)) = (Inl (InvariantViolation ?msg), w)"
    if "map_result (normalizeCall E config) pre = Inr ds" for pre ds post
    using aggregate_normalise_fails [OF that] by simp
  moreover from fail have "\<exists>e. aggregate E config w (Many cs) = (Inl e, w)" if "c \<in> set cs" for cs
    using aggregate_member_fails [OF that] by simp
  ultimately show ?thesis using fail types vals plain one by blast
qed

text \<open>
  Claim C2. For every call whose signature's resolved argument-type count differs from
  the number of supplied argument values, aggregate fails with an invariant error
  whose message carries both the type list and the value list, and the network call
  (ethCall / Batch Invoker) is never invoked.

  The call \<open>['setName(string,uint256)(bool)', '100%sure']\<close> declares two argument types
  and supplies one value. aggregate fails with the invariant error and the world comes
  back unchanged, no remote call having been made. The template of the message holds
  the JSON text of the type list and of the value list, but it is handed to
  \<open>invariant\<close> as its format, where the \<open>%s\<close> inside the value becomes \<open>undefined\<close>: the
  message that is thrown holds the type list and the text \<open>["100undefinedure"]\<close>, and
  the value list \<open>["100%sure"]\<close> occurs nowhere in it.
\<close>

theorem arity_mismatch_placeholder:
  "resolve_argTypes ''string,uint256'' = [''string'', ''uint256''] \<and>
   snd (call placeholder_call) = [JStr ''100%sure''] \<and>
   aggregate (stub_env ''0xa1'') config0 world0 (One placeholder_call) =
     (Inl (InvariantViolation
        (format_message (arity_message (stub_env ''0xa1'') [''string'', ''uint256''] [JStr ''100%sure'']))),
      world0) \<and>
   sublist (JSON_stringify (stub_env ''0xa1'') (Data (JArr [JStr ''100%sure''])))
     (arity_message (stub_env ''0xa1'') [''string'', ''uint256''] [JStr ''100%sure'']) \<and>
   sublist (JSON_stringify (stub_env ''0xa1'') (Data (JArr (map JStr [''string'', ''uint256'']))))
     (format_message (arity_message (stub_env ''0xa1'') [''string'', ''uint256''] [JStr ''100%sure''])) \<and>
   sublist (JSON_stringify (stub_env ''0xa1'') (Data (JArr [JStr ''100undefinedure''])))
     (format_message (arity_message (stub_env ''0xa1'') [''string'', ''uint256''] [JStr ''100%sure''])) \<and>
   \<not> sublist (JSON_stringify (stub_env ''0xa1'') (Data (JArr [JStr ''100%sure''])))
     (format_message (arity_message (stub_env ''0xa1'') [''string'', ''uint256''] [JStr ''100%sure'']))"
proof -
  let ?E = "stub_env ''0xa1''"
  let ?tpl = "arity_message ?E [''string'', ''uint256''] [JStr ''100%sure'']"
  have types: "resolve_argTypes ''string,uint256'' = [''string'', ''uint256'']"
    by (simp add: resolve_argTypes_def)
  have vals: "snd (call placeholder_call) = [JStr ''100%sure'']"
    by (simp add: placeholder_call_def)
  have norm: "normalizeCall ?E config0 placeholder_call = Inl (InvariantViolation (format_message ?tpl))"
    by (simp add: placeholder_call_def signature_groups_def INSIDE_EVERY_PARENTHESES_def
        slice_1_m1_def line_terminator_def normalizeCall_def invariant_def types Let_def)
  then have run: "aggregate ?E config0 world0 (One placeholder_call) =
      (Inl (InvariantViolation (format_message ?tpl)), world0)"
    by (simp add: aggregate_def Let_def)
  have tpl: "sublist (JSON_stringify ?E (Data (JArr [JStr ''100%sure'']))) ?tpl"
    by code_simp
  have kept: "sublist (JSON_stringify ?E (Data (JArr (map JStr [''string'', ''uint256''])))) (format_message ?tpl)"
    by code_simp
  have mangled: "sublist (JSON_stringify ?E (Data (JArr [JStr ''100undefinedure'']))) (format_message ?tpl)"
    by code_simp
  have lost: "\<not> sublist (JSON_stringify ?E (Data (JArr [JStr ''100%sure'']))) (format_message ?tpl)"
    by code_simp
  from types vals run tpl kept mangled lost show ?thesis by blast
qed

text \<open>Three declared argument types against two supplied values, after a well-formed
  call: no placeholder occurs in the template, and the message carries both lists.\<close>

lemma arity_mismatch_example:
  "aggregate (stub_env ''0xa1'') config0 world0 (Many ([balance_call] @ short_call # three_calls)) =
     (Inl (InvariantViolation
        (arity_message (stub_env ''0xa1'') [''address'', ''uint256'', ''bytes''] [JStr ''0x0111'', JNum 5])),
      world0) \<and>
   eth_calls (snd (aggregate (stub_env ''0xa1'') config0 world0 (Many ([balance_call] @ short_call # three_calls))))
     = []"
proof -
  let ?E = "stub_env ''0xa1''"
  have groups: "signature_groups (fst (call short_call)) = Inr (''address,uint256,bytes'', Some ''bool'')"
    by (simp add: short_call_def normalize_eval)
  have types: "resolve_argTypes ''address,uint256,bytes'' = [''address'', ''uint256'', ''bytes'']"
    by (simp add: resolve_argTypes_def)
  have vals: "snd (call short_call) = [JStr ''0x0111'', JNum 5]"
    by (simp add: short_call_def)
  have mismatch: "length (resolve_argTypes ''address,uint256,bytes'') \<noteq> length (snd (call short_call))"
    by (simp add: types vals)
  have plain: "\<not> sublist ''%s'' (arity_message ?E [''address'', ''uint256'', ''bytes''] [JStr ''0x0111'', JNum 5])"
    by code_simp
  from arity_mismatch_error [OF groups mismatch, of ?E config0 world0] balance_norm [of ?E] plain
  have "aggregate ?E config0 world0 (Many ([balance_call] @ short_call # three_calls)) =
     (Inl (InvariantViolation
        (arity_message ?E [''address'', ''uint256'', ''bytes''] [JStr ''0x0111'', JNum 5])), world0)"
    unfolding types vals by metis
  then show ?thesis by (simp add: world0_def)
qed

text \<open>
  Claim C4. For every signature-mode call, the canonical method string used to derive
  the 4-byte selector is exactly \<open>name(argTypes)\<close>, the method name with its
  argument-type list, and never includes the return-type group.

  For a signature \<open>name(a)rest\<close> whose name has no parenthesis and whose argument group
  \<open>a\<close> is on one line: the method of the descriptor is \<open>name(a)\<close> whatever \<open>rest\<close> is,
  it is the name with the resolved argument types joined by commas when no piece of
  \<open>a\<close> is empty, and the call data begins with the first ten code units (\<open>0x\<close> and
  four bytes) of the hash text of that string.
\<close>

theorem canonical_method:
  assumes shape: "fst (call c) = name @ ''('' @ a @ '')'' @ rest"
    and name: "CHR ''('' \<notin> set name" "CHR '')'' \<notin> set name"
    and a: "CHR '')'' \<notin> set a" "\<forall>ch\<in>set a. \<not> line_terminator ch"
    and arity: "length (resolve_argTypes a) = length (snd (call c))"
  shows "\<exists>d. normalizeCall E config c = Inr d \<and>
           d_method d = name @ ''('' @ a @ '')'' \<and>
           map snd (args d) = resolve_argTypes a \<and>
           ([] \<notin> set (split_comma a) \<or> a = [] \<longrightarrow>
              d_method d = name @ ''('' @ join_comma (map snd (args d)) @ '')'') \<and>
           (\<forall>cd. callData E d = Inr cd \<longrightarrow>
              prefix (take 10 (keccak256 E (toUtf8Bytes E (name @ ''('' @ a @ '')'')))) cd)"
proof -
  from signature_shape [OF shape name a]
  obtain r where groups: "signature_groups (fst (call c)) = Inr (a, r)"
    and first: "FIRST_CLOSING_PARENTHESES (fst (call c)) = Some (name @ ''('' @ a @ '')'')"
    by blast
  define d where "d = \<lparr>d_method = name @ ''('' @ a @ '')'',
      args = zip (snd (call c)) (resolve_argTypes a),
      d_target = default_target config (target c),
      returnTypes = (case r of None \<Rightarrow> [] | Some r' \<Rightarrow> if r' \<noteq> [] then split_comma r' else []),
      d_returns = returns c\<rparr>"
  from groups first arity have run: "normalizeCall E config c = Inr d"
    by (simp add: normalizeCall_def invariant_def Let_def d_def)
  have m: "d_method d = name @ ''('' @ a @ '')''"
    by (simp add: d_def)
  have types: "map snd (args d) = resolve_argTypes a"
    using arity by (simp add: d_def)
  have joined: "d_method d = name @ ''('' @ join_comma (map snd (args d)) @ '')''"
    if "[] \<notin> set (split_comma a) \<or> a = []"
    using join_resolved [OF that] m types by simp
  have sel: "prefix (take 10 (keccak256 E (toUtf8Bytes E (name @ ''('' @ a @ '')'')))) cd"
    if "callData E d = Inr cd" for cd
    using callData_prefix [OF that] m by simp
  from run m types joined sel show ?thesis by blast
qed

text \<open>The signature \<open>balanceOf(address)(uint256)\<close>.\<close>

theorem canonical_method_witness:
  "fst (call balance_call) = ''balanceOf'' @ ''('' @ ''address'' @ '')'' @ ''(uint256)'' \<and>
   d_method (projr (normalizeCall (stub_env ''0xa1'') config0 balance_call)) = ''balanceOf(address)'' \<and>
   map snd (args (projr (normalizeCall (stub_env ''0xa1'') config0 balance_call))) = [''address''] \<and>
   prefix (take 10 (stub_keccak256 ''balanceOf(address)''))
     (projr (callData (stub_env ''0xa1'') (projr (normalizeCall (stub_env ''0xa1'') config0 balance_call))))"
proof -
  let ?E = "stub_env ''0xa1''"
  have shape: "fst (call balance_call) = ''balanceOf'' @ ''('' @ ''address'' @ '')'' @ ''(uint256)''"
    by (simp add: balance_call_def)
  have name: "CHR ''('' \<notin> set ''balanceOf''" "CHR '')'' \<notin> set ''balanceOf''"
    by simp_all
  have a: "CHR '')'' \<notin> set ''address''" "\<forall>ch\<in>set ''address''. \<not> line_terminator ch"
    by (simp_all add: line_terminator_def)
  have types: "resolve_argTypes ''address'' = [''address'']"
    by (simp add: resolve_argTypes_def)
  have arity: "length (resolve_argTypes ''address'') = length (snd (call balance_call))"
    by (simp add: types balance_call_def)
  from canonical_method [OF shape name a arity, of ?E config0]
  obtain d where run: "normalizeCall ?E config0 balance_call = Inr d"
    and m: "d_method d = ''balanceOf'' @ ''('' @ ''address'' @ '')''"
    and t: "map snd (args d) = resolve_argTypes ''address''"
    and sel: "\<forall>cd. callData ?E d = Inr cd \<longrightarrow>
        prefix (take 10 (keccak256 ?E (toUtf8Bytes ?E (''balanceOf'' @ ''('' @ ''address'' @ '')'')))) cd"
    by blast
  from balance_norm [of ?E] run
  have d: "d = \<lparr>d_method = ''balanceOf(address)'', args = [(JStr ''0x0abc'', ''address'')],
           d_target = ''0x00c1'', returnTypes = [''uint256''], d_returns = [(''bal'', None)]\<rparr>"
    by (simp split: sum.splits)
  have "\<not> isl (callData ?E d)"
    unfolding d by code_simp
  then obtain cd where cd: "callData ?E d = Inr cd"
    by (cases "callData ?E d") auto
  with sel have "prefix (take 10 (stub_keccak256 ''balanceOf(address)'')) cd"
    by (simp add: stub_env_def)
  with run m t types cd shape show ?thesis by simp
qed


subsection \<open>The envelope builder\<close>

lemma hex_pairs_append:
  "hex_pairs a = Some as \<Longrightarrow> hex_pairs b = Some bs \<Longrightarrow> hex_pairs (a @ b) = Some (as @ bs)"
  by (induction a arbitrary: as rule: hex_pairs.induct) (auto split: option.splits)

lemma hex_pairs_take:
  "hex_pairs s = Some bs \<Longrightarrow> hex_pairs (take (2 * n) s) = Some (take n bs)"
proof (induction s arbitrary: bs n rule: hex_pairs.induct)
  case 1
  then show ?case by simp
next
  case (2 c)
  then show ?case by simp
next
  case (3 a b cs)
  show ?case
  proof (cases n)
    case 0
    then show ?thesis by simp
  next
    case (Suc m)
    from "3.prems" obtain h l bs' where p: "hex_value a = Some h" "hex_value b = Some l"
      "hex_pairs cs = Some bs'" "bs = of_nat (16 * h + l) # bs'"
      by (auto split: option.splits)
    from "3.IH" [OF p(1) p(2) p(3), of m] p Suc show ?thesis by simp
  qed
qed

lemma hex_to_bytes_0x:
  "hex_to_bytes s = Some bs \<longleftrightarrow> (\<exists>t. s = ''0x'' @ t \<and> hex_pairs t = Some bs)"
proof
  assume "hex_to_bytes s = Some bs"
  then have "take 2 s = ''0x''" "hex_pairs (drop 2 s) = Some bs"
    by (auto simp: hex_to_bytes_def split: if_splits)
  then have "s = ''0x'' @ drop 2 s \<and> hex_pairs (drop 2 s) = Some bs"
    by (metis append_take_drop_id)
  then show "\<exists>t. s = ''0x'' @ t \<and> hex_pairs t = Some bs" by blast
next
  assume "\<exists>t. s = ''0x'' @ t \<and> hex_pairs t = Some bs"
  then show "hex_to_bytes s = Some bs"
    by (auto simp: hex_to_bytes_def)
qed

lemma selector_bytes:
  assumes "hex_to_bytes h = Some hb"
  shows "\<exists>t. take 10 h = ''0x'' @ t \<and> hex_pairs t = Some (take 4 hb)"
proof -
  from assms obtain t where t: "h = ''0x'' @ t" "hex_pairs t = Some hb"
    by (auto simp: hex_to_bytes_0x)
  from hex_pairs_take [OF t(2), of 4] have "hex_pairs (take 8 t) = Some (take 4 hb)" by simp
  with t(1) show ?thesis by simp
qed

lemma callData_refines:
  assumes strip: "strips_0x (strip0x E)"
    and hash: "hex_to_bytes (keccak256 E (toUtf8Bytes E (d_method d))) \<noteq> None"
    and enc: "\<forall>enc. encodeParameters E (map PType (map snd (args d))) (map fst (args d)) = Inr enc \<longrightarrow>
                hex_to_bytes enc \<noteq> None"
  shows "(case callData E d of
            Inl e \<Rightarrow> spec_callData E d = Inl e
          | Inr cd \<Rightarrow> spec_callData E d = Inr (hex_to_bytes cd) \<and> hex_to_bytes cd \<noteq> None)"
proof -
  from hash obtain hb where hb: "hex_to_bytes (keccak256 E (toUtf8Bytes E (d_method d))) = Some hb"
    by auto
  from selector_bytes [OF hb] obtain t where
    t: "take 10 (keccak256 E (toUtf8Bytes E (d_method d))) = ''0x'' @ t" "hex_pairs t = Some (take 4 hb)"
    by blast
  have sel: "spec_selector E (d_method d) = Some (take 4 hb)"
    by (simp add: spec_selector_def hb)
  show ?thesis
  proof (cases "args d = []")
    case True
    with t sel show ?thesis
      by (simp add: callData_def spec_callData_def spec_encodedArgs_def hex_to_bytes_def)
  next
    case False
    show ?thesis
    proof (cases "encodeParameters E (map PType (map snd (args d))) (map fst (args d))")
      case (Inl e)
      with False show ?thesis
        by (simp add: callData_def spec_callData_def spec_encodedArgs_def comp_def)
    next
      case (Inr encoded)
      with enc obtain eb where "hex_to_bytes encoded = Some eb" by auto
      then obtain u where u: "encoded = ''0x'' @ u" "hex_pairs u = Some eb"
        by (auto simp: hex_to_bytes_0x)
      from strip u(1) have s: "strip0x E encoded = u"
        by (simp add: strips_0x_def)
      from hex_pairs_append [OF t(2) u(2)]
      have "hex_to_bytes ((''0x'' @ t) @ u) = Some (take 4 hb @ eb)"
        by (simp add: hex_to_bytes_def)
      with False Inr t(1) s sel u \<open>hex_to_bytes encoded = Some eb\<close> show ?thesis
        by (simp add: callData_def spec_callData_def spec_encodedArgs_def comp_def)
    qed
  qed
qed

lemma map_result_call_tuple:
  "map_result (call_tuple E) calls =
     (case map_result (callData E) calls of
        Inl e \<Rightarrow> Inl e
      | Inr cds \<Rightarrow> Inr (map (\<lambda>p. JArr [JStr (d_target (fst p)), JStr (snd p)]) (zip calls cds)))"
  by (induction calls) (auto simp: call_tuple_def split: sum.splits)

text \<open>
  Claim C5. For every list of canonical call descriptors, the envelope builder
  produces, for each descriptor, callData equal to the first 4 bytes of the keccak256
  hash of the canonical method string concatenated with the ABI encoding of
  (argTypes, argValues) when at least one argument exists and with nothing otherwise,
  and the envelope blob is the outer ABI encoding of the array of (target, callData)
  tuples.

  The code works on hexadecimal texts and the claim speaks of bytes. Provided the
  hash and the codec return hexadecimal texts and \<open>strip0x\<close> removes the leading
  \<open>0x\<close>, the text \<open>callData\<close> builds for a descriptor denotes exactly the bytes of
  \<open>spec_callData\<close>, and both fail with the codec's error when the codec throws. The
  envelope is the encoding, under the type \<open>tuple[]\<close> of (address, bytes), of the array
  of the pairs of target and call data, in the order of the descriptors.
\<close>

theorem envelope_builder:
  assumes strip: "strips_0x (strip0x E)"
    and hashes: "\<forall>d\<in>set calls. hex_to_bytes (keccak256 E (toUtf8Bytes E (d_method d))) \<noteq> None"
    and encs: "\<forall>d\<in>set calls. \<forall>enc.
        encodeParameters E (map PType (map snd (args d))) (map fst (args d)) = Inr enc \<longrightarrow>
        hex_to_bytes enc \<noteq> None"
  shows "(\<forall>d\<in>set calls.
            (case callData E d of
               Inl e \<Rightarrow> spec_callData E d = Inl e
             | Inr cd \<Rightarrow> spec_callData E d = Inr (hex_to_bytes cd) \<and> hex_to_bytes cd \<noteq> None)) \<and>
         raw_makeMulticallData E calls =
           (case map_result (callData E) calls of
              Inl e \<Rightarrow> Inl e
            | Inr cds \<Rightarrow>
                encodeParameters E [envelope_type]
                  [JArr (map (\<lambda>p. JArr [JStr (d_target (fst p)), JStr (snd p)]) (zip calls cds))])"
proof -
  have "(case callData E d of
               Inl e \<Rightarrow> spec_callData E d = Inl e
             | Inr cd \<Rightarrow> spec_callData E d = Inr (hex_to_bytes cd) \<and> hex_to_bytes cd \<noteq> None)"
    if "d \<in> set calls" for d
    using callData_refines [OF strip] hashes encs that by blast
  moreover have "raw_makeMulticallData E calls =
           (case map_result (callData E) calls of
              Inl e \<Rightarrow> Inl e
            | Inr cds \<Rightarrow>
                encodeParameters E [envelope_type]
                  [JArr (map (\<lambda>p. JArr [JStr (d_target (fst p)), JStr (snd p)]) (zip calls cds))])"
    by (simp add: raw_makeMulticallData_def map_result_call_tuple split: sum.splits)
  ultimately show ?thesis by blast
qed

text \<open>The three descriptors of the examples under the toy hash and codec.\<close>

theorem envelope_builder_witness:
  "strips_0x (strip0x (stub_env ''0xa3'')) \<and>
   map (callData (stub_env ''0xa3'')) three_descriptors
     = [Inr ''0x62616c610111'', Inr ''0x746f7461'', Inr ''0x62616c610222''] \<and>
   map (spec_callData (stub_env ''0xa3'')) three_descriptors
     = [Inr (Some [0x62, 0x61, 0x6c, 0x61, 0x01, 0x11]), Inr (Some [0x74, 0x6f, 0x74, 0x61]),
        Inr (Some [0x62, 0x61, 0x6c, 0x61, 0x02, 0x22])] \<and>
   raw_makeMulticallData (stub_env ''0xa3'') three_descriptors
     = stub_encodeParameters [envelope_type]
         [JArr [JArr [JStr ''0x00c1'', JStr ''0x62616c610111''],
                JArr [JStr ''0x00c1'', JStr ''0x746f7461''],
                JArr [JStr ''0x00aa'', JStr ''0x62616c610222'']]]"
proof -
  let ?E = "stub_env ''0xa3''"
  have strip: "strips_0x (strip0x ?E)"
    by (simp add: strips_0x_def stub_env_def stub_strip0x_def)
  have "list_all (\<lambda>d. hex_to_bytes (keccak256 ?E (toUtf8Bytes ?E (d_method d))) \<noteq> None) three_descriptors"
    by code_simp
  then have hashes: "\<forall>d\<in>set three_descriptors.
      hex_to_bytes (keccak256 ?E (toUtf8Bytes ?E (d_method d))) \<noteq> None"
    by (simp add: list_all_iff)
  have "list_all (\<lambda>d. case encodeParameters ?E (map PType (map snd (args d))) (map fst (args d)) of
                         Inl e \<Rightarrow> True | Inr enc \<Rightarrow> hex_to_bytes enc \<noteq> None) three_descriptors"
    by code_simp
  then have encs: "\<forall>d\<in>set three_descriptors. \<forall>enc.
      encodeParameters ?E (map PType (map snd (args d))) (map fst (args d)) = Inr enc \<longrightarrow>
      hex_to_bytes enc \<noteq> None"
    by (auto simp: list_all_iff split: sum.splits)
  have cds: "map_result (callData ?E) three_descriptors
      = Inr [''0x62616c610111'', ''0x746f7461'', ''0x62616c610222'']"
    by code_simp
  have each: "map (callData ?E) three_descriptors
     = [Inr ''0x62616c610111'', Inr ''0x746f7461'', Inr ''0x62616c610222'']"
    by code_simp
  have spec: "map (spec_callData ?E) three_descriptors
     = [Inr (Some [0x62, 0x61, 0x6c, 0x61, 0x01, 0x11]), Inr (Some [0x74, 0x6f, 0x74, 0x61]),
        Inr (Some [0x62, 0x61, 0x6c, 0x61, 0x02, 0x22])]"
    by code_simp
  from envelope_builder [OF strip hashes encs]
  have "raw_makeMulticallData ?E three_descriptors =
           (case map_result (callData ?E) three_descriptors of
              Inl e \<Rightarrow> Inl e
            | Inr cds \<Rightarrow>
                encodeParameters ?E [envelope_type]
                  [JArr (map (\<lambda>p. JArr [JStr (d_target (fst p)), JStr (snd p)])
                     (zip three_descriptors cds))])"
    by blast
  then have "raw_makeMulticallData ?E three_descriptors
     = stub_encodeParameters [envelope_type]
         [JArr [JArr [JStr ''0x00c1'', JStr ''0x62616c610111''],
                JArr [JStr ''0x00c1'', JStr ''0x746f7461''],
                JArr [JStr ''0x00aa'', JStr ''0x62616c610222'']]]"
    unfolding cds by (simp add: three_descriptors_def stub_env_def)
  with strip each spec show ?thesis by simp
qed

subsection \<open>Memoisation of the envelope builder\<close>

lemma memo_hit:
  "memo_cache w (resolver E view calls flag) = Some blob \<Longrightarrow>
     makeMulticallData E view w calls flag = (Inr blob, w)"
  by (simp add: makeMulticallData_def Let_def)

lemma memo_stored:
  "makeMulticallData E view w calls flag = (Inr blob, w1) \<Longrightarrow>
     memo_cache w1 (resolver E view calls flag) = Some blob"
  by (auto simp: makeMulticallData_def Let_def split: option.splits sum.splits)

lemma memo_kept:
  "memo_cache w k = Some blob \<Longrightarrow>
     memo_cache (snd (makeMulticallData E view w calls flag)) k = Some blob"
  by (auto simp: makeMulticallData_def Let_def split: option.splits sum.splits)

lemma memo_runs:
  "encode_runs (snd (makeMulticallData E view w calls flag)) \<le> Suc (encode_runs w)"
  by (auto simp: makeMulticallData_def Let_def split: option.splits sum.splits)

lemma build_many_kept:
  "memo_cache w k = Some blob \<Longrightarrow> memo_cache (build_many E view w between) k = Some blob"
  by (induction between arbitrary: w) (auto dest: memo_kept)

text \<open>
  Claim C6. For any two envelope-builder invocations whose normalized call lists have
  equal JSON serializations, the second invocation returns a blob byte-identical to
  the first and does not re-invoke the underlying encoding step (\<open>_makeMulticallData\<close>
  runs at most once per distinct serialized call list).

  Once an invocation has returned a blob, every later invocation with an equally
  serialised argument list, after any number of invocations in between, returns that
  blob and leaves the world as it is: the cache and the count of runs of
  \<open>_makeMulticallData\<close> do not change. The first invocation ran it at most once.
\<close>

theorem memoised_builder:
  assumes first: "makeMulticallData E view w calls1 flag1 = (Inr blob, w1)"
    and key: "resolver E view calls2 flag2 = resolver E view calls1 flag1"
  shows "makeMulticallData E view (build_many E view w1 between) calls2 flag2
           = (Inr blob, build_many E view w1 between) \<and>
         encode_runs w1 \<le> Suc (encode_runs w)"
proof -
  from memo_stored [OF first] key
  have "memo_cache w1 (resolver E view calls2 flag2) = Some blob" by simp
  then have "memo_cache (build_many E view w1 between) (resolver E view calls2 flag2) = Some blob"
    by (rule build_many_kept)
  then have "makeMulticallData E view (build_many E view w1 between) calls2 flag2
           = (Inr blob, build_many E view w1 between)"
    by (rule memo_hit)
  moreover from memo_runs [of E view w calls1 flag1] first
  have "encode_runs w1 \<le> Suc (encode_runs w)" by simp
  ultimately show ?thesis by blast
qed

text \<open>
  Two call lists that differ in a transform have the same serialisation, since a
  function is printed as \<open>null\<close>; the second, submitted after another batch, gets the
  blob of the first.
\<close>

theorem memoised_builder_witness:
  "\<not> isl (fst (makeMulticallData (stub_env ''0xa3'') descriptor_view world0 three_descriptors False)) \<and>
   other_descriptors \<noteq> three_descriptors \<and>
   resolver (stub_env ''0xa3'') descriptor_view other_descriptors False
     = resolver (stub_env ''0xa3'') descriptor_view three_descriptors False \<and>
   fst (makeMulticallData (stub_env ''0xa3'') descriptor_view
          (build_many (stub_env ''0xa3'') descriptor_view
             (snd (makeMulticallData (stub_env ''0xa3'') descriptor_view world0 three_descriptors False))
             [[pair_descriptor]])
          other_descriptors False)
     = fst (makeMulticallData (stub_env ''0xa3'') descriptor_view world0 three_descriptors False) \<and>
   encode_runs (snd (makeMulticallData (stub_env ''0xa3'') descriptor_view
          (build_many (stub_env ''0xa3'') descriptor_view
             (snd (makeMulticallData (stub_env ''0xa3'') descriptor_view world0 three_descriptors False))
             [[pair_descriptor]])
          other_descriptors False))
     = encode_runs (build_many (stub_env ''0xa3'') descriptor_view
             (snd (makeMulticallData (stub_env ''0xa3'') descriptor_view world0 three_descriptors False))
             [[pair_descriptor]])"
proof -
  let ?E = "stub_env ''0xa3''"
  have ok: "\<not> isl (fst (makeMulticallData ?E descriptor_view world0 three_descriptors False))"
    by code_simp
  then obtain blob w1 where first: "makeMulticallData ?E descriptor_view world0 three_descriptors False = (Inr blob, w1)"
    by (cases "makeMulticallData ?E descriptor_view world0 three_descriptors False")
      (metis fst_conv sum.collapse(2))
  have differ: "other_descriptors \<noteq> three_descriptors"
  proof
    assume "other_descriptors = three_descriptors"
    then have "d_returns (other_descriptors ! 2) = d_returns (three_descriptors ! 2)" by simp
    then have "double = Inr"
      by (simp add: other_descriptors_def three_descriptors_def)
    then have "double (JBig 1) = Inr (JBig 1)" by simp
    then show False by (simp add: double_def)
  qed
  have key: "resolver ?E descriptor_view other_descriptors False
     = resolver ?E descriptor_view three_descriptors False"
    by (simp add: resolver_def descriptor_view_def other_descriptors_def three_descriptors_def)
  from memoised_builder [OF first key, of "[[pair_descriptor]]"] first ok differ key
  show ?thesis by simp
qed


subsection \<open>ABI mode: which interface serves a call\<close>

lemma fromEntries_snoc:
  "fromEntries (es @ [e]) k = (if key_of (fst e) = k then Some (snd e) else fromEntries es k)"
  by (simp add: fromEntries_def)

lemma last_abi_snoc:
  "last_abi k (cs @ [c]) = (if key_of (target c) = k then Some (abi c) else last_abi k cs)"
  by (simp add: last_abi_def)

lemma last_abi_member:
  "last_abi k cs = Some a \<Longrightarrow> \<exists>c\<in>set cs. abi c = a \<and> key_of (target c) = k"
  by (induction cs rule: rev_induct) (auto simp: last_abi_snoc last_abi_def split: if_splits)

lemma interface_entry_Inr:
  "interface_entry N c = Inr e \<longleftrightarrow> fst e = target c \<and> Interface N (abi c) = Inr (snd e)"
  by (cases e) (auto simp: interface_entry_def split: sum.splits)

lemma stored_interface:
  assumes "map_result (interface_entry N) cs = Inr entries"
  shows "(fromEntries entries k = None \<longleftrightarrow> last_abi k cs = None) \<and>
         (fromEntries entries k = Some iface \<longleftrightarrow>
            (\<exists>a. last_abi k cs = Some a \<and> Interface N a = Inr iface))"
  using assms
proof (induction cs arbitrary: entries rule: rev_induct)
  case Nil
  then show ?case by (simp add: fromEntries_def last_abi_def)
next
  case (snoc c cs)
  from snoc.prems obtain es e where es: "map_result (interface_entry N) cs = Inr es"
    and e: "interface_entry N c = Inr e" and entries: "entries = es @ [e]"
    by (auto simp: map_result_append split: sum.splits)
  from e have fe: "fst e = target c" and se: "Interface N (abi c) = Inr (snd e)"
    by (simp_all add: interface_entry_Inr)
  show ?case
  proof (cases "key_of (target c) = k")
    case True
    with fe se show ?thesis
      by (auto simp: entries fromEntries_snoc last_abi_snoc)
  next
    case False
    with fe snoc.IH [OF es] show ?thesis
      by (simp add: entries fromEntries_snoc last_abi_snoc)
  qed
qed

lemma normalizeABICall_Inr:
  assumes "normalizeABICall N E config ifaces c = Inr d"
  shows "\<exists>iface types. ifaces (key_of (target c)) = Some iface \<and>
           getFunction_inputs N iface (fst (call c)) = Inr types \<and>
           length types = length (snd (call c)) \<and>
           d = \<lparr>d_method = fst (call c) @ ''('' @ join_comma types @ '')'',
                args = zip (snd (call c)) types,
                d_target = default_target config (target c)\<rparr>"
  using assms
  by (auto simp: normalizeABICall_def invariant_def Let_def split: option.splits sum.splits if_splits)

lemma aggregateDecodedFromABI_run:
  assumes "map_result (interface_entry N) (as_array input) = Inr entries"
    and "map_result (normalizeABICall N E config (fromEntries entries)) (as_array input) = Inr ds"
    and "makeMulticallData E call_data_view w ds False = (Inr blob, w1)"
    and "ethCall E blob config = Inr outer"
  shows "aggregateDecodedFromABI N E config w input =
           (decodeABIResults N (fromEntries entries) ds outer, w1\<lparr>eth_calls := eth_calls w1 @ [blob]\<rparr>)"
  using assms by (simp add: aggregateDecodedFromABI_def Let_def split: sum.splits)

lemma decodeABIResults_Inr:
  assumes "map_result (\<lambda>p. decodeABIResult N ifaces ds (fst p) (snd p)) (enumerate 0 decoded) = Inr rs"
  shows "length rs = length decoded \<and>
         (\<forall>j<length rs. decodeABIResult N ifaces ds j (decoded ! j) = Inr (rs ! j))"
proof -
  from assms
  have l2: "list_all2 (\<lambda>p y. decodeABIResult N ifaces ds (fst p) (snd p) = Inr y) (enumerate 0 decoded) rs"
    by (simp add: map_result_Inr_iff)
  then have len: "length rs = length decoded"
    by (auto dest: list_all2_lengthD)
  have "decodeABIResult N ifaces ds j (decoded ! j) = Inr (rs ! j)" if "j < length rs" for j
    using list_all2_nthD [OF l2, of j] that len by (simp add: nth_enumerate_eq)
  with len show ?thesis by blast
qed

text \<open>
  Claim C10, as stated: in ABI mode (\<open>aggregateDecodedFromABI\<close>), contract interfaces are
  stored in a mapping keyed by the pre-default target address, so when two or more
  calls share the same target the ABI supplied with the last such call is used to
  resolve argument types and decode results for all calls to that target, and a call
  that omits its target is decoded via a lookup under the defaulted multicall address
  where no interface was stored.

  The last part fails when another call names the multicall address as its target.
  Of the two calls below the first omits its target and comes with an ABI whose
  \<open>balanceOf\<close> returns \<open>uint256\<close>, the second names the multicall address \<open>0x00aa\<close> and
  comes with an ABI whose \<open>balanceOf\<close> returns \<open>bool\<close>. An interface is stored under
  the multicall address, the one of the second call, and the run returns: the result
  of the first call, the bytes \<open>0x01f4\<close>, is decoded with it, as the boolean true.
\<close>

theorem abi_interfaces_by_raw_target_counterexample:
  "target (mixed_calls ! 0) = None \<and>
   abi (mixed_calls ! 0) = abi_uint \<and>
   map_result (interface_entry stub_ethers) mixed_calls
     = Inr [(None, abi_uint), (Some ''0x00aa'', abi_bool)] \<and>
   fromEntries [(None, abi_uint), (Some ''0x00aa'', abi_bool)]
       (default_target config0 (target (mixed_calls ! 0)))
     = Some abi_bool \<and>
   decodeFunctionResult stub_ethers abi_uint ''balanceOf(address)'' (JStr ''0x01f4'') = Inr [JBig 500] \<and>
   fst (aggregateDecodedFromABI stub_ethers (stub_env ''0xa2'') config0 world0 (Many mixed_calls))
     = Inr [[JBool True], [JBool True]]"
proof -
  have "target (mixed_calls ! 0) = None" "abi (mixed_calls ! 0) = abi_uint"
    by (simp_all add: mixed_calls_def)
  moreover have "map_result (interface_entry stub_ethers) mixed_calls
      = Inr [(None, abi_uint), (Some ''0x00aa'', abi_bool)]"
    by (simp add: interface_entry_def mixed_calls_def stub_ethers_def)
  moreover have "fromEntries [(None, abi_uint), (Some ''0x00aa'', abi_bool)]
      (default_target config0 (target (mixed_calls ! 0))) = Some abi_bool"
    by (simp add: fromEntries_def key_of_def default_target_def mixed_calls_def config0_def)
  moreover have "decodeFunctionResult stub_ethers abi_uint ''balanceOf(address)'' (JStr ''0x01f4'') = Inr [JBig 500]"
    by code_simp
  moreover have "fst (aggregateDecodedFromABI stub_ethers (stub_env ''0xa2'') config0 world0 (Many mixed_calls))
      = Inr [[JBool True], [JBool True]]"
    by code_simp
  ultimately show ?thesis by blast
qed

text \<open>
  Claim C10, amended. The interfaces are stored under the targets as the callers gave
  them (an omitted target under the name \<open>undefined\<close>), and under each key stands the
  interface of the ABI supplied with the last call that has that key. The argument
  types of call \<open>j\<close> are resolved with the interface under the key of its target as
  given. Its result is decoded with the interface under its defaulted target: for a
  call with a target of its own this is the same key, so the ABI of the last call to
  that target serves both; for a call that omits its target it is the multicall
  address, under which an interface stands only if some call names that address as
  its target. Then the ABI of the last such call decodes the result, and otherwise
  decoding the result is a TypeError.

  \<open>entries\<close> are the stored pairs and \<open>ds\<close> the normalised calls. \<open>decoded\<close> is the array
  of per-call results in the decoded response: in a run that returns \<open>rs\<close>, the element
  \<open>rs ! j\<close> is the decoding of \<open>decoded ! j\<close>, and a run with an omitted target to which a
  result belongs, in a batch where no call names the multicall address, fails.
\<close>

theorem abi_interfaces_by_raw_target:
  assumes built: "map_result (interface_entry N) cs = Inr entries"
    and norm: "map_result (normalizeABICall N E config (fromEntries entries)) cs = Inr ds"
  shows "(\<forall>k. (fromEntries entries k = None \<longleftrightarrow> last_abi k cs = None) \<and>
              (\<forall>iface. fromEntries entries k = Some iface \<longleftrightarrow>
                 (\<exists>a. last_abi k cs = Some a \<and> Interface N a = Inr iface))) \<and>
         length ds = length cs \<and>
         (\<forall>j<length cs. \<exists>a iface types.
            last_abi (key_of (target (cs ! j))) cs = Some a \<and> Interface N a = Inr iface \<and>
            getFunction_inputs N iface (fst (call (cs ! j))) = Inr types \<and>
            ds ! j = \<lparr>d_method = fst (call (cs ! j)) @ ''('' @ join_comma types @ '')'',
                      args = zip (snd (call (cs ! j))) types,
                      d_target = default_target config (target (cs ! j))\<rparr>) \<and>
         (\<forall>j<length cs.
            default_target config (target (cs ! j)) =
              (if target (cs ! j) = None \<or> target (cs ! j) = Some []
               then multicallAddress config else key_of (target (cs ! j)))) \<and>
         (\<forall>j<length cs. \<forall>b.
            (last_abi (default_target config (target (cs ! j))) cs = None \<longrightarrow>
               decodeABIResult N (fromEntries entries) ds j b = Inl TypeError) \<and>
            (\<forall>a. last_abi (default_target config (target (cs ! j))) cs = Some a \<longrightarrow>
               (\<exists>iface. Interface N a = Inr iface \<and>
                  decodeABIResult N (fromEntries entries) ds j b =
                    decodeFunctionResult N iface (d_method (ds ! j)) b))) \<and>
         (\<forall>w blob w1 outer res decoded.
            makeMulticallData E call_data_view w ds False = (Inr blob, w1) \<and>
            ethCall E blob config = Inr outer \<and>
            decodeFunctionResult N (MULTICALL_ABI N) ''aggregate'' (JStr outer) = Inr res \<and>
            1 < length res \<and> res ! 1 = JArr decoded \<longrightarrow>
            (\<forall>rs w'. aggregateDecodedFromABI N E config w (Many cs) = (Inr rs, w') \<longrightarrow>
               length rs = length decoded \<and> length rs \<le> length cs \<and>
               (\<forall>j<length rs. \<exists>a iface.
                  last_abi (default_target config (target (cs ! j))) cs = Some a \<and>
                  Interface N a = Inr iface \<and>
                  decodeFunctionResult N iface (d_method (ds ! j)) (decoded ! j) = Inr (rs ! j))) \<and>
            (\<forall>j<length cs. j < length decoded \<and>
               (target (cs ! j) = None \<or> target (cs ! j) = Some []) \<and>
               last_abi (multicallAddress config) cs = None \<longrightarrow>
               (\<exists>e. fst (aggregateDecodedFromABI N E config w (Many cs)) = Inl e)))"
proof -
  note stored = stored_interface [OF built]
  from norm have l2: "list_all2 (\<lambda>c d. normalizeABICall N E config (fromEntries entries) c = Inr d) cs ds"
    by (simp add: map_result_Inr_iff)
  then have len: "length ds = length cs"
    by (auto dest: list_all2_lengthD)
  have keys: "(fromEntries entries k = None \<longleftrightarrow> last_abi k cs = None) \<and>
      (\<forall>iface. fromEntries entries k = Some iface \<longleftrightarrow>
         (\<exists>a. last_abi k cs = Some a \<and> Interface N a = Inr iface))" for k
    using stored by blast
  have types: "\<exists>a iface types.
      last_abi (key_of (target (cs ! j))) cs = Some a \<and> Interface N a = Inr iface \<and>
      getFunction_inputs N iface (fst (call (cs ! j))) = Inr types \<and>
      ds ! j = \<lparr>d_method = fst (call (cs ! j)) @ ''('' @ join_comma types @ '')'',
                args = zip (snd (call (cs ! j))) types,
                d_target = default_target config (target (cs ! j))\<rparr>"
    if j: "j < length cs" for j
  proof -
    from list_all2_nthD [OF l2 j]
    have "normalizeABICall N E config (fromEntries entries) (cs ! j) = Inr (ds ! j)" .
    from normalizeABICall_Inr [OF this] obtain iface types where
      look: "fromEntries entries (key_of (target (cs ! j))) = Some iface"
      and rest: "getFunction_inputs N iface (fst (call (cs ! j))) = Inr types"
        "ds ! j = \<lparr>d_method = fst (call (cs ! j)) @ ''('' @ join_comma types @ '')'',
                  args = zip (snd (call (cs ! j))) types,
                  d_target = default_target config (target (cs ! j))\<rparr>"
      by blast
    from look stored obtain a where "last_abi (key_of (target (cs ! j))) cs = Some a" "Interface N a = Inr iface"
      by blast
    with rest show ?thesis by blast
  qed
  have tgt: "d_target (ds ! j) = default_target config (target (cs ! j))" if "j < length cs" for j
    using types [OF that] by auto
  have dflt: "default_target config (target (cs ! j)) =
      (if target (cs ! j) = None \<or> target (cs ! j) = Some []
       then multicallAddress config else key_of (target (cs ! j)))" for j
    by (auto simp: default_target_def key_of_def split: option.splits)
  have dec: "(last_abi (default_target config (target (cs ! j))) cs = None \<longrightarrow>
         decodeABIResult N (fromEntries entries) ds j b = Inl TypeError) \<and>
      (\<forall>a. last_abi (default_target config (target (cs ! j))) cs = Some a \<longrightarrow>
         (\<exists>iface. Interface N a = Inr iface \<and>
            decodeABIResult N (fromEntries entries) ds j b =
              decodeFunctionResult N iface (d_method (ds ! j)) b))"
    if j: "j < length cs" for j b
  proof -
    let ?k = "default_target config (target (cs ! j))"
    have eq: "decodeABIResult N (fromEntries entries) ds j b =
        (case fromEntries entries ?k of
           None \<Rightarrow> Inl TypeError
         | Some iface \<Rightarrow> decodeFunctionResult N iface (d_method (ds ! j)) b)"
      using j len tgt [OF j] by (simp add: decodeABIResult_def)
    have none: "decodeABIResult N (fromEntries entries) ds j b = Inl TypeError"
      if "last_abi ?k cs = None"
      using that keys [of ?k] eq by simp
    have some: "\<exists>iface. Interface N a = Inr iface \<and>
        decodeABIResult N (fromEntries entries) ds j b = decodeFunctionResult N iface (d_method (ds ! j)) b"
      if a: "last_abi ?k cs = Some a" for a
    proof -
      from a keys [of ?k] obtain iface where look: "fromEntries entries ?k = Some iface"
        by (cases "fromEntries entries ?k") auto
      with keys [of ?k] a have "Interface N a = Inr iface" by auto
      with look eq show ?thesis by simp
    qed
    from none some show ?thesis by blast
  qed
  have pipeline:
    "(\<forall>rs w'. aggregateDecodedFromABI N E config w (Many cs) = (Inr rs, w') \<longrightarrow>
        length rs = length decoded \<and> length rs \<le> length cs \<and>
        (\<forall>j<length rs. \<exists>a iface.
           last_abi (default_target config (target (cs ! j))) cs = Some a \<and>
           Interface N a = Inr iface \<and>
           decodeFunctionResult N iface (d_method (ds ! j)) (decoded ! j) = Inr (rs ! j))) \<and>
     (\<forall>j<length cs. j < length decoded \<and>
        (target (cs ! j) = None \<or> target (cs ! j) = Some []) \<and>
        last_abi (multicallAddress config) cs = None \<longrightarrow>
        (\<exists>e. fst (aggregateDecodedFromABI N E config w (Many cs)) = Inl e))"
    if build: "makeMulticallData E call_data_view w ds False = (Inr blob, w1)"
      and eth: "ethCall E blob config = Inr outer"
      and mc: "decodeFunctionResult N (MULTICALL_ABI N) ''aggregate'' (JStr outer) = Inr res"
      and shape: "1 < length res" "res ! 1 = JArr decoded"
    for w blob w1 outer res decoded
  proof -
    let ?f = "\<lambda>p. decodeABIResult N (fromEntries entries) ds (fst p) (snd p)"
    from mc shape have "decodeABIResults N (fromEntries entries) ds outer = map_result ?f (enumerate 0 decoded)"
      by (simp add: decodeABIResults_def)
    with aggregateDecodedFromABI_run [of N "Many cs" entries E config ds w blob w1 outer] built norm build eth
    have run: "aggregateDecodedFromABI N E config w (Many cs) =
        (map_result ?f (enumerate 0 decoded), w1\<lparr>eth_calls := eth_calls w1 @ [blob]\<rparr>)"
      by simp
    have ok: "length rs = length decoded \<and> length rs \<le> length cs \<and>
        (\<forall>j<length rs. \<exists>a iface.
           last_abi (default_target config (target (cs ! j))) cs = Some a \<and>
           Interface N a = Inr iface \<and>
           decodeFunctionResult N iface (d_method (ds ! j)) (decoded ! j) = Inr (rs ! j))"
      if "aggregateDecodedFromABI N E config w (Many cs) = (Inr rs, w')" for rs w'
    proof -
      from that run have m: "map_result ?f (enumerate 0 decoded) = Inr rs" by simp
      from decodeABIResults_Inr [OF m]
      have lr: "length rs = length decoded"
        and each: "\<And>j. j < length rs \<Longrightarrow> decodeABIResult N (fromEntries entries) ds j (decoded ! j) = Inr (rs ! j)"
        by auto
      have inside: "j < length cs" if "j < length rs" for j
        using each [OF that] len by (auto simp: decodeABIResult_def split: if_splits)
      have bound: "length rs \<le> length cs"
      proof (rule ccontr)
        assume "\<not> length rs \<le> length cs"
        then have "length cs < length rs" by simp
        from inside [OF this] show False by simp
      qed
      have "\<exists>a iface. last_abi (default_target config (target (cs ! j))) cs = Some a \<and>
          Interface N a = Inr iface \<and>
          decodeFunctionResult N iface (d_method (ds ! j)) (decoded ! j) = Inr (rs ! j)"
        if j: "j < length rs" for j
      proof (cases "last_abi (default_target config (target (cs ! j))) cs")
        case None
        with dec [OF inside [OF j], of "decoded ! j"] each [OF j] show ?thesis by simp
      next
        case (Some a)
        with dec [OF inside [OF j], of "decoded ! j"] each [OF j] show ?thesis by auto
      qed
      with lr bound show ?thesis by blast
    qed
    have bad: "\<exists>e. fst (aggregateDecodedFromABI N E config w (Many cs)) = Inl e"
      if j: "j < length cs" "j < length decoded"
        and om: "target (cs ! j) = None \<or> target (cs ! j) = Some []"
        and none: "last_abi (multicallAddress config) cs = None" for j
    proof -
      from om dflt [of j] have "default_target config (target (cs ! j)) = multicallAddress config"
        by auto
      with dec [OF j(1), of "decoded ! j"] none
      have "decodeABIResult N (fromEntries entries) ds j (decoded ! j) = Inl TypeError"
        by simp
      moreover from j(2) have "(j, decoded ! j) \<in> set (enumerate 0 decoded)"
        by (simp add: in_set_enumerate_eq)
      ultimately have "\<exists>e. map_result ?f (enumerate 0 decoded) = Inl e"
        using map_result_member_fails [where f = ?f and x = "(j, decoded ! j)"] by auto
      with run show ?thesis by auto
    qed
    from ok bad show ?thesis by blast
  qed
  from keys len types dflt dec pipeline show ?thesis by blast
qed

text \<open>
  Two calls to \<open>0x00c1\<close>, the first with an ABI whose \<open>balanceOf\<close> returns \<open>uint256\<close> and
  the second with one that returns \<open>bool\<close>: the ABI of the second serves the target,
  and the result of the first call is decoded with it, as a boolean. A single call
  without target: no call names the multicall address, and the run fails.
\<close>

theorem abi_interfaces_by_raw_target_witness:
  "last_abi ''0x00c1'' shared_calls = Some abi_bool \<and>
   fst (aggregateDecodedFromABI stub_ethers (stub_env ''0xa2'') config0 world0 (Many shared_calls))
     = Inr [[JBool True], [JBool True]] \<and>
   decodeFunctionResult stub_ethers abi_bool ''balanceOf(address)'' (JStr ''0x01f4'') = Inr [JBool True] \<and>
   target (omitted_calls ! 0) = None \<and>
   last_abi (multicallAddress config0) omitted_calls = None \<and>
   isl (fst (aggregateDecodedFromABI stub_ethers (stub_env ''0xa1'') config0 world0 (Many omitted_calls)))"
proof -
  let ?N = "stub_ethers"
  let ?d = "\<lambda>v t. \<lparr>d_method = ''balanceOf(address)'', args = [(JStr v, ''address'')], d_target = t\<rparr>"
  let ?ds = "[?d ''0x0111'' ''0x00c1'', ?d ''0x0222'' ''0x00c1'']"
  let ?entries = "[(Some ''0x00c1'', abi_uint), (Some ''0x00c1'', abi_bool)]"
  let ?decoded = "[JStr ''0x01f4'', JStr ''0x01'']"
  let ?rs = "[[JBool True], [JBool True]]"
  have last: "last_abi ''0x00c1'' shared_calls = Some abi_bool"
    by code_simp
  have built: "map_result (interface_entry ?N) shared_calls = Inr ?entries"
    by (simp add: interface_entry_def shared_calls_def stub_ethers_def)
  have norm: "map_result (normalizeABICall ?N (stub_env ''0xa2'') config0 (fromEntries ?entries)) shared_calls
      = Inr ?ds"
    by code_simp
  obtain blob w1 where build: "makeMulticallData (stub_env ''0xa2'') call_data_view world0 ?ds False = (Inr blob, w1)"
  proof -
    have "\<not> isl (fst (makeMulticallData (stub_env ''0xa2'') call_data_view world0 ?ds False))"
      by code_simp
    then show ?thesis
      using that by (cases "makeMulticallData (stub_env ''0xa2'') call_data_view world0 ?ds False")
        (metis fst_conv sum.collapse(2))
  qed
  have eth: "ethCall (stub_env ''0xa2'') blob config0 = Inr ''0xa2''"
    by (simp add: stub_env_def)
  have mc: "decodeFunctionResult ?N (MULTICALL_ABI ?N) ''aggregate'' (JStr ''0xa2'')
      = Inr [JBig 100, JArr ?decoded]"
    by code_simp
  have shape: "1 < length [JBig 100, JArr ?decoded]" "[JBig 100, JArr ?decoded] ! 1 = JArr ?decoded"
    by simp_all
  have ok: "fst (aggregateDecodedFromABI ?N (stub_env ''0xa2'') config0 world0 (Many shared_calls)) = Inr ?rs"
    by code_simp
  then obtain w' where run: "aggregateDecodedFromABI ?N (stub_env ''0xa2'') config0 world0 (Many shared_calls)
      = (Inr ?rs, w')"
    by (cases "aggregateDecodedFromABI ?N (stub_env ''0xa2'') config0 world0 (Many shared_calls)") simp
  from abi_interfaces_by_raw_target [OF built norm] build eth mc shape run
  have "\<forall>j<length ?rs. \<exists>a iface.
      last_abi (default_target config0 (target (shared_calls ! j))) shared_calls = Some a \<and>
      Interface ?N a = Inr iface \<and>
      decodeFunctionResult ?N iface (d_method (?ds ! j)) (?decoded ! j) = Inr (?rs ! j)"
    by blast
  then obtain a iface where
    a: "last_abi (default_target config0 (target (shared_calls ! 0))) shared_calls = Some a"
    and iface: "Interface ?N a = Inr iface"
    and res: "decodeFunctionResult ?N iface (d_method (?ds ! 0)) (?decoded ! 0) = Inr (?rs ! 0)"
    by (metis length_Cons zero_less_Suc)
  have "default_target config0 (target (shared_calls ! 0)) = ''0x00c1''"
    by (simp add: shared_calls_def default_target_def)
  with a last have "a = abi_bool" by simp
  with iface have "iface = abi_bool" by (simp add: stub_ethers_def)
  with res have shared: "decodeFunctionResult ?N abi_bool ''balanceOf(address)'' (JStr ''0x01f4'') = Inr [JBool True]"
    by simp
  let ?ds' = "[?d ''0x0111'' ''0x00aa'']"
  have om: "target (omitted_calls ! 0) = None"
    by (simp add: omitted_calls_def)
  have none: "last_abi (multicallAddress config0) omitted_calls = None"
    by code_simp
  have built': "map_result (interface_entry ?N) omitted_calls = Inr [(None, abi_uint)]"
    by (simp add: interface_entry_def omitted_calls_def stub_ethers_def)
  have norm': "map_result (normalizeABICall ?N (stub_env ''0xa1'') config0 (fromEntries [(None, abi_uint)]))
      omitted_calls = Inr ?ds'"
    by code_simp
  obtain blob' w1' where build': "makeMulticallData (stub_env ''0xa1'') call_data_view world0 ?ds' False = (Inr blob', w1')"
  proof -
    have "\<not> isl (fst (makeMulticallData (stub_env ''0xa1'') call_data_view world0 ?ds' False))"
      by code_simp
    then show ?thesis
      using that by (cases "makeMulticallData (stub_env ''0xa1'') call_data_view world0 ?ds' False")
        (metis fst_conv sum.collapse(2))
  qed
  have eth': "ethCall (stub_env ''0xa1'') blob' config0 = Inr ''0xa1''"
    by (simp add: stub_env_def)
  have mc': "decodeFunctionResult ?N (MULTICALL_ABI ?N) ''aggregate'' (JStr ''0xa1'')
      = Inr [JBig 100, JArr [JStr ''0x01f4'']]"
    by code_simp
  have shape': "1 < length [JBig 100, JArr [JStr ''0x01f4'']]"
    "[JBig 100, JArr [JStr ''0x01f4'']] ! 1 = JArr [JStr ''0x01f4'']"
    by simp_all
  have j: "0 < length omitted_calls" "0 < length [JStr ''0x01f4'']"
    by (simp_all add: omitted_calls_def)
  from abi_interfaces_by_raw_target [OF built' norm'] build' eth' mc' shape'
  have "\<forall>j<length omitted_calls. j < length [JStr ''0x01f4''] \<and>
      (target (omitted_calls ! j) = None \<or> target (omitted_calls ! j) = Some []) \<and>
      last_abi (multicallAddress config0) omitted_calls = None \<longrightarrow>
      (\<exists>e. fst (aggregateDecodedFromABI ?N (stub_env ''0xa1'') config0 world0 (Many omitted_calls)) = Inl e)"
    by blast
  with j om none
  have "\<exists>e. fst (aggregateDecodedFromABI ?N (stub_env ''0xa1'') config0 world0 (Many omitted_calls)) = Inl e"
    by blast
  then have fails: "isl (fst (aggregateDecodedFromABI ?N (stub_env ''0xa1'') config0 world0 (Many omitted_calls)))"
    by auto
  from last ok shared om none fails show ?thesis by blast
qed

end
